theory Spec2Isabelle
  imports Complex_Main "HOL-Library.Sublist" "HOL-Library.Char_ord" "HOL-Library.List_Lexorder"
    "HOL-Library.Log_Nat"
begin

section \<open>Text primitives\<close>

text \<open>
  A Python \<open>str\<close> is modelled as a \<open>string\<close> in which every \<open>char\<close> stands for one
  code point below U+0100 (ASCII and the Latin-1 supplement, which covers the accented
  letters the scripts mention). Text with larger code points is outside the model.
\<close>

definition is_upper_char :: "char \<Rightarrow> bool" where
  "is_upper_char c =
     (let n = (of_char c :: nat)
      in (65 \<le> n \<and> n \<le> 90) \<or> (192 \<le> n \<and> n \<le> 222 \<and> n \<noteq> 215))"

definition lower_char :: "char \<Rightarrow> char" where
  "lower_char c = (if is_upper_char c then char_of ((of_char c :: nat) + 32) else c)"

text \<open>\<open>str.lower()\<close>.\<close>

definition py_lower :: "string \<Rightarrow> string" where
  "py_lower s = map lower_char s"

text \<open>\<open>kw in s\<close> on two strings: \<open>kw\<close> occurs in \<open>s\<close> as a contiguous run.\<close>

fun str_contains :: "string \<Rightarrow> string \<Rightarrow> bool" where
  "str_contains kw [] = (kw = [])"
| "str_contains kw (c # cs) = (prefix kw (c # cs) \<or> str_contains kw cs)"

text \<open>
  The character class \<open>\w\<close> of \<open>re\<close> on \<open>str\<close> patterns: alphanumeric code points and
  the underscore.
\<close>

definition is_word_char :: "char \<Rightarrow> bool" where
  "is_word_char c =
     (let n = (of_char c :: nat)
      in (48 \<le> n \<and> n \<le> 57) \<or> (65 \<le> n \<and> n \<le> 90) \<or> n = 95 \<or> (97 \<le> n \<and> n \<le> 122)
         \<or> n = 170 \<or> n = 178 \<or> n = 179 \<or> n = 181 \<or> n = 185 \<or> n = 186
         \<or> (188 \<le> n \<and> n \<le> 190) \<or> (192 \<le> n \<and> n \<le> 214)
         \<or> (216 \<le> n \<and> n \<le> 246) \<or> (248 \<le> n \<and> n \<le> 255))"

text \<open>\<open>str.isspace()\<close> on one character; also what \<open>\s\<close>, \<open>split()\<close> and \<open>strip()\<close> use.\<close>

definition is_space_char :: "char \<Rightarrow> bool" where
  "is_space_char c =
     (let n = (of_char c :: nat)
      in (9 \<le> n \<and> n \<le> 13) \<or> (28 \<le> n \<and> n \<le> 32) \<or> n = 133 \<or> n = 160)"

text \<open>
  \<open>\b\<close>: the position between two neighbours (\<open>None\<close> at either end of the text) is a
  word boundary when exactly one of them is a word character.
\<close>

definition is_word_opt :: "char option \<Rightarrow> bool" where
  "is_word_opt x = (case x of None \<Rightarrow> False | Some c \<Rightarrow> is_word_char c)"

definition word_boundary :: "char option \<Rightarrow> char option \<Rightarrow> bool" where
  "word_boundary a b = (is_word_opt a \<noteq> is_word_opt b)"

definition head_opt :: "string \<Rightarrow> char option" where
  "head_opt s = (case s of [] \<Rightarrow> None | c # _ \<Rightarrow> Some c)"

text \<open>
  A literal of the pattern against the text, with or without \<open>re.IGNORECASE\<close>.
\<close>

definition literal_prefix :: "bool \<Rightarrow> string \<Rightarrow> string \<Rightarrow> bool" where
  "literal_prefix ignorecase kw s =
     (if ignorecase then prefix (map lower_char kw) (map lower_char s) else prefix kw s)"

text \<open>
  The pattern \<open>\b + re.escape(kw) + \b\<close> anchored at the current position; \<open>prev\<close> is the
  character before it.
\<close>

definition word_match_here :: "bool \<Rightarrow> char option \<Rightarrow> string \<Rightarrow> string \<Rightarrow> bool" where
  "word_match_here ignorecase prev kw s =
     (literal_prefix ignorecase kw s
      \<and> word_boundary prev (head_opt s)
      \<and> word_boundary (if kw = [] then prev else Some (last (take (length kw) s)))
           (head_opt (drop (length kw) s)))"

text \<open>\<open>re.search\<close> of that pattern: some position of the text matches.\<close>

fun word_search_from :: "bool \<Rightarrow> char option \<Rightarrow> string \<Rightarrow> string \<Rightarrow> bool" where
  "word_search_from ignorecase prev kw [] = word_match_here ignorecase prev kw []"
| "word_search_from ignorecase prev kw (c # cs) =
     (word_match_here ignorecase prev kw (c # cs) \<or> word_search_from ignorecase (Some c) kw cs)"

definition re_search_word :: "bool \<Rightarrow> string \<Rightarrow> string \<Rightarrow> bool" where
  "re_search_word ignorecase kw text = word_search_from ignorecase None kw text"

text \<open>\<open>s.replace(a, r)\<close> for a one-character \<open>a\<close>.\<close>

definition replace_char :: "char \<Rightarrow> string \<Rightarrow> string \<Rightarrow> string" where
  "replace_char a r s = concat (map (\<lambda>c. if c = a then r else [c]) s)"

text \<open>\<open>s.split()\<close>: the maximal runs of characters that are not whitespace.\<close>

fun split_from :: "string \<Rightarrow> string \<Rightarrow> string list" where
  "split_from cur [] = (if cur = [] then [] else [cur])"
| "split_from cur (c # cs) =
     (if is_space_char c then (if cur = [] then split_from [] cs else cur # split_from [] cs)
      else split_from (cur @ [c]) cs)"

definition py_split :: "string \<Rightarrow> string list" where
  "py_split s = split_from [] s"

text \<open>\<open>sep.join(ws)\<close>.\<close>

fun py_join :: "string \<Rightarrow> string list \<Rightarrow> string" where
  "py_join sep [] = []"
| "py_join sep [w] = w"
| "py_join sep (w # ws) = w @ sep @ py_join sep ws"

text \<open>\<open>s.strip()\<close>.\<close>

definition py_strip :: "string \<Rightarrow> string" where
  "py_strip s = rev (dropWhile is_space_char (rev (dropWhile is_space_char s)))"

text \<open>
  \<open>str.title()\<close>: a cased character becomes lowercase after a cased character and
  titlecase otherwise. Three lowercase letters below U+0100 have a titlecase form that is
  not one code point below U+0100 (U+00B5 gives U+039C, U+00DF gives "Ss", U+00FF gives
  U+0178); for them \<open>title_char\<close> is \<open>None\<close>, and so is the title-cased form of a text that
  has one of them in a titlecase position: the model cannot write it.
\<close>

definition is_lower_char :: "char \<Rightarrow> bool" where
  "is_lower_char c =
     (let n = (of_char c :: nat)
      in (97 \<le> n \<and> n \<le> 122) \<or> (223 \<le> n \<and> n \<le> 255 \<and> n \<noteq> 247)
         \<or> n = 170 \<or> n = 181 \<or> n = 186)"

definition is_cased_char :: "char \<Rightarrow> bool" where
  "is_cased_char c = (is_upper_char c \<or> is_lower_char c)"

definition title_char :: "char \<Rightarrow> char option" where
  "title_char c =
     (let n = (of_char c :: nat)
      in if (97 \<le> n \<and> n \<le> 122) \<or> (224 \<le> n \<and> n \<le> 254 \<and> n \<noteq> 247)
         then Some (char_of (n - 32))
         else if n = 181 \<or> n = 223 \<or> n = 255 then None
         else Some c)"

fun title_from :: "bool \<Rightarrow> string \<Rightarrow> string option" where
  "title_from previous_is_cased [] = Some []"
| "title_from previous_is_cased (c # cs) =
     (case (if previous_is_cased then Some (lower_char c) else title_char c) of
        None \<Rightarrow> None
      | Some mapped \<Rightarrow>
          (case title_from (is_cased_char c) cs of
             None \<Rightarrow> None
           | Some rest \<Rightarrow> Some (mapped # rest)))"

definition py_title :: "string \<Rightarrow> string option" where
  "py_title s = title_from False s"

section \<open>classify\_records.py\<close>

text \<open>
  The keyword after "village" is its Turkish form; its two non-ASCII letters are U+00F6
  and U+00FC.
\<close>

definition SPECIFIC_KEYWORDS :: "string list" where
  "SPECIFIC_KEYWORDS =
     [''beach'', ''playa'', ''sands'', ''reef'', ''cove'', ''bay'',
      ''plaza'', ''square'', ''piazza'', ''platz'',
      ''church'', ''cathedral'', ''basilica'', ''chapel'', ''mosque'', ''parish'',
      ''lighthouse'', ''faro'',
      ''pier'', ''dock'', ''wharf'', ''marina'', ''harbour'', ''harbor'', ''port'',
      ''airport'', ''runway'', ''station'',
      ''bridge'', ''puente'',
      ''monument'', ''obelisk'', ''statue'', ''memorial'', ''fountain'',
      ''tower'', ''castle'', ''fortress'', ''fort'',
      ''park'', ''garden'', ''zoo'',
      ''museum'', ''theater'', ''theatre'', ''stadium'',
      ''market'', ''shop'', ''restaurant'', ''bar'', ''cafe'',
      ''waterfall'', ''canyon'', ''cave'', ''volcano'',
      ''temple'', ''shrine'', ''monastery'',
      ''pool'', ''resort'',
      ''ski'', ''slope'',
      ''nest'', ''cahow'', ''falcon'',
      ''underwater'', ''coral'',
      ''crossing'', ''road'', ''street'', ''avenue'', ''avenida'',
      ''village'', [CHR ''k'', CHR 0xF6, CHR ''y'', CHR 0xFC],
      ''clock'',
      ''inspection'']"

definition VAGUE_KEYWORDS :: "string list" where
  "VAGUE_KEYWORDS = [''panorama'', ''panoramic'', ''skyline'', ''northern lights'', ''traffic'']"

text \<open>
  The \<open>if\<close>/\<open>elif\<close> chain on the matched keyword. A test against a parenthesised tuple is
  membership; \<open>kw in ("station")\<close>, \<open>("volcano")\<close>, \<open>("clock")\<close> and \<open>("inspection")\<close> have
  no tuple, so Python tests whether \<open>kw\<close> occurs inside that one string.
\<close>

definition landmark_result :: "string \<Rightarrow> string \<times> int" where
  "landmark_result kw =
     (if kw \<in> set [''beach'', ''playa'', ''sands'', ''cove'', ''bay'', ''reef'']
        then (''automatic'', 200)
      else if kw \<in> set [''plaza'', ''square'', ''piazza'', ''platz'', ''fountain'',
                         ''monument'', ''obelisk'', ''statue'', ''memorial'']
        then (''automatic'', 100)
      else if kw \<in> set [''church'', ''cathedral'', ''basilica'', ''chapel'',
                         ''mosque'', ''parish'', ''temple'', ''shrine'', ''monastery'']
        then (''automatic'', 100)
      else if kw \<in> set [''lighthouse'', ''faro''] then (''automatic'', 50)
      else if kw \<in> set [''pier'', ''dock'', ''wharf'', ''marina''] then (''automatic'', 150)
      else if kw \<in> set [''harbour'', ''harbor'', ''port''] then (''automatic'', 300)
      else if kw \<in> set [''airport'', ''runway''] then (''automatic'', 500)
      else if str_contains kw ''station'' then (''automatic'', 200)
      else if kw \<in> set [''bridge'', ''puente''] then (''automatic'', 200)
      else if kw \<in> set [''tower'', ''castle'', ''fortress'', ''fort''] then (''automatic'', 150)
      else if kw \<in> set [''park'', ''garden'', ''zoo''] then (''automatic'', 300)
      else if kw \<in> set [''museum'', ''theater'', ''theatre'', ''stadium'']
        then (''automatic'', 200)
      else if kw \<in> set [''market'', ''shop'', ''restaurant'', ''bar'', ''cafe'']
        then (''automatic'', 100)
      else if kw \<in> set [''waterfall'', ''canyon'', ''cave''] then (''automatic'', 300)
      else if str_contains kw ''volcano'' then (''automatic'', 500)
      else if kw \<in> set [''pool'', ''resort''] then (''automatic'', 200)
      else if kw \<in> set [''ski'', ''slope''] then (''automatic'', 500)
      else if kw \<in> set [''nest'', ''cahow'', ''falcon''] then (''manual'', 500)
      else if kw \<in> set [''underwater'', ''coral''] then (''manual'', 300)
      else if kw \<in> set [''crossing'', ''road'', ''street'', ''avenue'', ''avenida'']
        then (''automatic'', 200)
      else if kw \<in> set [''village'', [CHR ''k'', CHR 0xF6, CHR ''y'', CHR 0xFC]]
        then (''automatic'', 500)
      else if str_contains kw ''clock'' then (''automatic'', 100)
      else if str_contains kw ''inspection'' then (''manual'', 500)
      else (''automatic'', 200))"

text \<open>
  The character class of the subtitle pattern lists \<open>\s\<close>, \<open>\w\<close>, the comma, the dot,
  the range that its part \<open>\'-\<close> opens, from the apostrophe (U+0027) to a-acute
  (U+00E1), and eight more accented letters (U+00E9, U+00ED, U+00F3, U+00FA, U+00F1,
  U+00FC, U+00E7, U+00EA).
\<close>

definition generic_class_char :: "char \<Rightarrow> bool" where
  "generic_class_char c =
     (let n = (of_char c :: nat)
      in is_space_char c \<or> is_word_char c \<or> n = 44 \<or> n = 46 \<or> (39 \<le> n \<and> n \<le> 225)
         \<or> n = 233 \<or> n = 237 \<or> n = 243 \<or> n = 250 \<or> n = 241 \<or> n = 252 \<or> n = 231
         \<or> n = 234)"

text \<open>
  \<open>re.match(r"^(view (from|of|over|on)|panoramic view)[...]+$", h2_lower)\<close>: one of the
  openings, then at least one character, all of them in the class, up to the end (a final
  newline, which \<open>$\<close> would allow, is in the class itself).
\<close>

definition generic_openings :: "string list" where
  "generic_openings = [''view from'', ''view of'', ''view over'', ''view on'', ''panoramic view'']"

definition h2_generic_match :: "string \<Rightarrow> bool" where
  "h2_generic_match h2_lower =
     list_ex (\<lambda>p. prefix p h2_lower
                  \<and> drop (length p) h2_lower \<noteq> []
                  \<and> list_all generic_class_char (drop (length p) h2_lower))
             generic_openings"

definition classify_record :: "string \<Rightarrow> string \<Rightarrow> string \<times> int" where
  "classify_record h1 h2 =
     (let combined = py_lower (h1 @ '' '' @ h2)
      in if list_ex (\<lambda>kw. str_contains kw combined) VAGUE_KEYWORDS then (''manual'', 2500)
         else case find (\<lambda>kw. re_search_word True kw combined) SPECIFIC_KEYWORDS of
                Some kw \<Rightarrow> landmark_result kw
              | None \<Rightarrow>
                  (let h2_lower = py_lower h2;
                       h2_is_generic = h2_generic_match h2_lower;
                       landmark_absent =
                         (\<not> list_ex (\<lambda>kw. re_search_word False kw combined) SPECIFIC_KEYWORDS)
                   in if h2_is_generic \<and> landmark_absent then (''manual'', 2000)
                      else (''automatic'', 500)))"

definition estimate_radius_for_manual :: "string \<Rightarrow> string \<Rightarrow> int" where
  "estimate_radius_for_manual h1 h2 =
     (let combined = py_lower (h1 @ '' '' @ h2)
      in if list_ex (\<lambda>kw. str_contains kw combined)
              [''beach'', ''playa'', ''plaza'', ''square'', ''pier'', ''lighthouse'']
           then 200
         else if list_ex (\<lambda>kw. str_contains kw combined) [''panorama'', ''panoramic'', ''skyline'']
           then 2500
         else if str_contains ''traffic'' combined then 500
         else 1500)"

text \<open>
  \<open>main\<close> reads a JSON object from country to records; each record is a JSON array
  \<open>[h1, h2, url, tag?, radius?, ...]\<close>. The scalar JSON values:
\<close>

datatype jval = JNull | JBool bool | JInt int | JFloat real | JStr string

datatype py_error = AttributeError | TypeError | RequestException

text \<open>\<open>record[i] if len(record) > i else ""\<close>.\<close>

definition field_or_empty :: "jval list \<Rightarrow> nat \<Rightarrow> jval" where
  "field_or_empty record i = (if length record > i then record ! i else JStr [])"

text \<open>
  The test of the "Live Cams in..." filter:
  \<open>h1.lower().startswith("live cams in") or h1.lower().startswith("liva cams in")\<close>.
\<close>

definition index_page_title :: "string \<Rightarrow> bool" where
  "index_page_title h1 =
     (prefix ''live cams in'' (py_lower h1) \<or> prefix ''liva cams in'' (py_lower h1))"

text \<open>The filter's test on a record: its first field is a string with such a title.\<close>

definition has_index_title :: "jval list \<Rightarrow> bool" where
  "has_index_title record =
     (case field_or_empty record 0 of JStr h1 \<Rightarrow> index_page_title h1 | _ \<Rightarrow> False)"

text \<open>
  One iteration of the loop over the records of a country. \<open>Inr None\<close> is the
  \<open>continue\<close> of the filter, \<open>Inr (Some r)\<close> the record appended to \<open>country_results\<close>,
  \<open>Inl e\<close> an exception, which nothing catches: \<open>h1.lower()\<close> on a value that is not a
  string, and \<open>h1 + " " + h2\<close> when \<open>h2\<close> is not one. The counters of \<open>stats\<close> are only
  printed and are left out.
\<close>

definition classify_one :: "jval list \<Rightarrow> py_error + jval list option" where
  "classify_one record =
     (case field_or_empty record 0 of
        JStr h1 \<Rightarrow>
          if index_page_title h1 then Inr None
          else if length record \<ge> 4 \<and> record ! 3 = JStr ''manual'' then
            (if length record < 5 then
               (case field_or_empty record 1 of
                  JStr h2 \<Rightarrow>
                    Inr (Some (take 4 record @ [JInt (estimate_radius_for_manual h1 h2)]))
                | _ \<Rightarrow> Inl TypeError)
             else Inr (Some record))
          else
            (case field_or_empty record 1 of
               JStr h2 \<Rightarrow>
                 (let (tag, radius) = classify_record h1 h2
                  in Inr (Some (take 3 record @ [JStr tag, JInt radius])))
             | _ \<Rightarrow> Inl TypeError)
      | _ \<Rightarrow> Inl AttributeError)"

fun classify_country :: "jval list list \<Rightarrow> py_error + jval list list" where
  "classify_country [] = Inr []"
| "classify_country (record # records) =
     (case classify_one record of
        Inl e \<Rightarrow> Inl e
      | Inr None \<Rightarrow> classify_country records
      | Inr (Some new_record) \<Rightarrow>
          (case classify_country records of
             Inl e \<Rightarrow> Inl e
           | Inr country_results \<Rightarrow> Inr (new_record # country_results)))"

text \<open>The loop over \<open>data.items()\<close>, building \<open>output_data\<close>.\<close>

fun classify_main :: "(string \<times> jval list list) list \<Rightarrow> py_error + (string \<times> jval list list) list"
  where
  "classify_main [] = Inr []"
| "classify_main ((country, records) # rest) =
     (case classify_country records of
        Inl e \<Rightarrow> Inl e
      | Inr country_results \<Rightarrow>
          (case classify_main rest of
             Inl e \<Rightarrow> Inl e
           | Inr output_data \<Rightarrow> Inr ((country, country_results) # output_data)))"

section \<open>Country names: merge\_webcams.py and merge\_webcamtaxi.py\<close>

definition COUNTRY_ALIASES :: "(string \<times> string) list" where
  "COUNTRY_ALIASES =
     [(''England'', ''United Kingdom''),
      (''Wales'', ''United Kingdom''),
      (''Scotland'', ''United Kingdom''),
      (''Great Britain'', ''United Kingdom''),
      (''Bosnia And Herzegovina'', ''Bosnia and Herzegovina''),
      (''Bosnia-Herzegovina'', ''Bosnia and Herzegovina''),
      (''Turkiye'', ''Turkey''),
      (''Russian Federation'', ''Russia''),
      (''Slovak Republic'', ''Slovakia''),
      (''Virgin Islands, U.S.'', ''US Virgin Islands''),
      (''Virgin Islands, British'', ''British Virgin Islands'')]"

definition resolve_country :: "string \<Rightarrow> string" where
  "resolve_country raw_country =
     (if raw_country = [] \<or> py_strip raw_country = [] then ''Unknown''
      else case map_of COUNTRY_ALIASES raw_country of
             Some canonical \<Rightarrow> canonical
           | None \<Rightarrow> raw_country)"

definition COUNTRY_SLUG_MAP :: "(string \<times> string) list" where
  "COUNTRY_SLUG_MAP =
     [(''england'', ''United Kingdom''),
      (''scotland'', ''United Kingdom''),
      (''wales'', ''United Kingdom''),
      (''usa'', ''United States''),
      (''czech-republic'', ''Czech Republic''),
      (''bosnia-herzegovina'', ''Bosnia and Herzegovina''),
      (''virgin-islands'', ''British Virgin Islands''),
      (''saint-barthelemy'', ''Saint Barthelemy''),
      (''saint-martin'', ''Sint Maarten''),
      (''united-arab-emirates'', ''United Arab Emirates''),
      (''south-africa'', ''South Africa''),
      (''south-korea'', ''South Korea''),
      (''new-zealand'', ''New Zealand''),
      (''north-macedonia'', ''North Macedonia''),
      (''french-polynesia'', ''French Polynesia''),
      (''costa-rica'', ''Costa Rica''),
      (''dominican-republic'', ''Dominican Republic''),
      (''el-salvador'', ''El Salvador''),
      (''dr-congo'', ''DR Congo''),
      (''saudi-arabia'', ''Saudi Arabia''),
      (''cape-verde'', ''Cape Verde''),
      (''cayman-islands'', ''Cayman Islands''),
      (''anguilla-island'', ''Anguilla''),
      (''turks-and-caicos-islands'', ''Turks And Caicos Islands''),
      (''bailiwick-of-jersey'', ''Jersey'')]"

text \<open>
  \<open>slug_to_country\<close>; the result is \<open>None\<close> only where \<open>py_title\<close> is, which no text of
  ASCII characters reaches.
\<close>

definition slug_to_country :: "string \<Rightarrow> string option" where
  "slug_to_country slug =
     (case map_of COUNTRY_SLUG_MAP slug of
        Some name \<Rightarrow> Some name
      | None \<Rightarrow> py_title (replace_char CHR ''-'' '' '' slug))"

section \<open>skyline\_geocoder.py: the search query\<close>

definition STOPWORDS :: "string list" where
  "STOPWORDS = [''skylinewebcams'', ''cam'', ''cams'', ''live'', ''in'']"

definition clean_words :: "string \<Rightarrow> string list" where
  "clean_words text =
     filter (\<lambda>word. word \<noteq> [] \<and> word \<notin> set STOPWORDS)
       (map (replace_char CHR ''-'' []) (py_split (py_lower text)))"

text \<open>
  The loop over \<open>h1_words\<close>; \<open>seen\<close> holds the words already taken.
\<close>

fun common_words :: "string list \<Rightarrow> string list \<Rightarrow> string list \<Rightarrow> string list" where
  "common_words h2_words seen [] = []"
| "common_words h2_words seen (word # h1_words) =
     (if word \<in> set h2_words \<and> word \<notin> set seen
      then word # common_words h2_words (word # seen) h1_words
      else common_words h2_words seen h1_words)"

definition extract_search_query :: "string \<Rightarrow> string \<Rightarrow> string option" where
  "extract_search_query h1 h2 =
     (let h1_words = clean_words h1; h2_words = clean_words h2
      in if h1_words = [] \<or> h2_words = [] then None
         else (let common = common_words h2_words [] h1_words
               in if common = [] then None else Some (py_join '' '' common)))"

section \<open>Records of combined.json\<close>

text \<open>
  A record of \<open>combined.json\<close> and \<open>webcam_locations.json\<close> is a JSON object with the keys
  below; \<open>None\<close> stands for \<open>null\<close> or an absent key. Further keys stay in the extension
  of the record scheme.
\<close>

record webcam =
  title :: "string option"
  subtitle :: "string option"
  url :: "string option"
  mode :: "string option"
  radius :: "int option"
  latitude :: "real option"
  longitude :: "real option"
  verified :: "bool option"
  source :: "string option"
  subregion :: "string option"

definition VERIFIED_RADIUS :: int where
  "VERIFIED_RADIUS = 10"

definition UNVERIFIED_RADIUS :: int where
  "UNVERIFIED_RADIUS = 200"

section \<open>The worker pool\<close>

text \<open>
  What \<open>requests.get\<close> does for one task: a response with status code and text, a
  timeout, or any other exception. \<open>responses\<close> lists the outcome of the request of each
  submitted task, by task index.
\<close>

datatype http_outcome = Responded int string | Timed_out | Failed_request

definition response_of :: "http_outcome list \<Rightarrow> nat \<Rightarrow> http_outcome" where
  "response_of responses idx =
     (if idx < length responses then responses ! idx else Failed_request)"

text \<open>
  The loop \<open>for future in as_completed(future_to_idx)\<close>: the futures arrive in some
  completion order, and each stores its result at its own index of \<open>results\<close>, which starts
  as \<open>[None] * n\<close>.
\<close>

definition collect_results :: "nat list \<Rightarrow> (nat \<Rightarrow> 'a) \<Rightarrow> nat \<Rightarrow> 'a option list" where
  "collect_results completion_order future_result n =
     foldl (\<lambda>results idx. results[idx := Some (future_result idx)])
       (replicate n None) completion_order"

text \<open>A completion order of \<open>n\<close> submitted tasks: every index once.\<close>

definition completion_of :: "nat \<Rightarrow> nat list \<Rightarrow> bool" where
  "completion_of n completion_order =
     (distinct completion_order \<and> set completion_order = {0..<n})"

section \<open>merge\_webcams.py: verification and merge\<close>

definition verify_url :: "http_outcome \<Rightarrow> bool" where
  "verify_url outcome =
     (case outcome of Responded status_code body \<Rightarrow> status_code = 200 | _ \<Rightarrow> False)"

definition verify_batch :: "http_outcome list \<Rightarrow> nat list \<Rightarrow> nat \<Rightarrow> bool option list" where
  "verify_batch responses completion_order n =
     collect_results completion_order (\<lambda>idx. verify_url (response_of responses idx)) n"

text \<open>
  "Apply verification results": \<open>ok = results[i]\<close>, then \<open>verified\<close> and \<open>radius\<close> are set.
\<close>

definition apply_verification :: "bool option \<Rightarrow> 'a webcam_scheme \<Rightarrow> 'a webcam_scheme" where
  "apply_verification ok rec =
     rec\<lparr>verified := ok,
         radius := Some (if ok = Some True then VERIFIED_RADIUS else UNVERIFIED_RADIUS)\<rparr>"

definition apply_verification_results ::
  "bool option list \<Rightarrow> (string \<times> 'a webcam_scheme) list \<Rightarrow> (string \<times> 'a webcam_scheme) list"
  where
  "apply_verification_results results transformed =
     map (\<lambda>(i, (country, rec)). (country, apply_verification (results ! i) rec))
       (enumerate 0 transformed)"

text \<open>Step 4 of \<open>main\<close>: the pool verifies every URL, then the results are applied.\<close>

definition verify_step ::
  "http_outcome list \<Rightarrow> nat list \<Rightarrow> (string \<times> 'a webcam_scheme) list
   \<Rightarrow> (string \<times> 'a webcam_scheme) list" where
  "verify_step responses completion_order transformed =
     apply_verification_results
       (verify_batch responses completion_order (length transformed)) transformed"

text \<open>
  The merge loop on a dict in insertion order:
  \<open>if country not in combined: combined[country] = []\<close>, then
  \<open>combined[country].append(rec)\<close>.
\<close>

fun dict_append :: "(string \<times> 'r list) list \<Rightarrow> string \<Rightarrow> 'r \<Rightarrow> (string \<times> 'r list) list" where
  "dict_append [] country rec = [(country, [rec])]"
| "dict_append ((k, recs) # rest) country rec =
     (if k = country then (k, recs @ [rec]) # rest
      else (k, recs) # dict_append rest country rec)"

definition merge_into :: "(string \<times> 'r list) list \<Rightarrow> (string \<times> 'r) list \<Rightarrow> (string \<times> 'r list) list"
  where
  "merge_into combined transformed =
     foldl (\<lambda>d (country, rec). dict_append d country rec) combined transformed"

text \<open>\<open>dict(sorted(combined.items()))\<close>: the keys of a dict differ, so they alone decide.\<close>

definition sorted_items :: "(string \<times> 'r list) list \<Rightarrow> (string \<times> 'r list) list" where
  "sorted_items combined = sort_key fst combined"

text \<open>
  \<open>main\<close> from the verification on. \<open>transformed\<close> is the list of pairs of canonical
  country (from \<open>resolve_country\<close>) and record that step 3 builds from the EarthCam
  places. Step 2 stamps the existing records; step 5 copies their lists and appends.
\<close>

definition stamp_slw :: "'a webcam_scheme \<Rightarrow> 'a webcam_scheme" where
  "stamp_slw rec = rec\<lparr>source := Some ''SLW'', subregion := None\<rparr>"

definition merge_webcams_main ::
  "http_outcome list \<Rightarrow> nat list \<Rightarrow> (string \<times> webcam list) list \<Rightarrow> (string \<times> webcam) list
   \<Rightarrow> (string \<times> webcam list) list" where
  "merge_webcams_main responses completion_order wl_data transformed =
     (let wl_data = map (\<lambda>(country, records). (country, map stamp_slw records)) wl_data;
          transformed = verify_step responses completion_order transformed
      in sorted_items (merge_into wl_data transformed))"

section \<open>merge\_webcamtaxi.py: iframe extraction and merge\<close>

text \<open>
  The pattern \<open><iframe[^>]+src=["\']([^"\']+)["\']\<close> with \<open>re.IGNORECASE\<close>.
  \<open>src_value_here\<close> is its part from \<open>src=\<close> on: the greedy group takes every character
  up to the next quote, and a quote has to follow.
\<close>

definition is_quote :: "char \<Rightarrow> bool" where
  "is_quote c = (c = CHR 0x22 \<or> c = CHR 0x27)"

definition src_value_here :: "string \<Rightarrow> string option" where
  "src_value_here s =
     (if literal_prefix True ''src='' s then
        (case drop 4 s of
           [] \<Rightarrow> None
         | q # rest \<Rightarrow>
             if is_quote q
                \<and> takeWhile (\<lambda>c. \<not> is_quote c) rest \<noteq> []
                \<and> dropWhile (\<lambda>c. \<not> is_quote c) rest \<noteq> []
             then Some (takeWhile (\<lambda>c. \<not> is_quote c) rest) else None)
      else None)"

text \<open>
  \<open>[^>]*\<close> before \<open>src=\<close>, greedy: of the positions it can reach, the last one at which
  the rest matches wins.
\<close>

fun last_src :: "string \<Rightarrow> string option" where
  "last_src [] = None"
| "last_src (c # cs) =
     (case (if c = CHR ''>'' then None else last_src cs) of
        Some v \<Rightarrow> Some v
      | None \<Rightarrow> src_value_here (c # cs))"

definition iframe_match_here :: "string \<Rightarrow> string option" where
  "iframe_match_here s =
     (if literal_prefix True ''<iframe'' s then
        (case drop 7 s of
           [] \<Rightarrow> None
         | c # cs \<Rightarrow> if c = CHR ''>'' then None else last_src cs)
      else None)"

text \<open>\<open>re.search\<close>: the first position of the text with a match; the result is group 1.\<close>

fun find_iframe_src :: "string \<Rightarrow> string option" where
  "find_iframe_src [] = None"
| "find_iframe_src (c # cs) =
     (case iframe_match_here (c # cs) of
        Some v \<Rightarrow> Some v
      | None \<Rightarrow> find_iframe_src cs)"

text \<open>\<open>text.replace("\\/", "/")\<close>: a backslash before a slash is dropped.\<close>

fun unescape_slashes :: "string \<Rightarrow> string" where
  "unescape_slashes (a # b # cs) =
     (if a = CHR 0x5C \<and> b = CHR ''/'' then CHR ''/'' # unescape_slashes cs
      else a # unescape_slashes (b # cs))"
| "unescape_slashes cs = cs"

text \<open>
  \<open>html.unescape\<close> belongs to the standard library and is a parameter of the model.
\<close>

definition unescape_text :: "(string \<Rightarrow> string) \<Rightarrow> string \<Rightarrow> string" where
  "unescape_text html_unescape txt =
     (if txt = [] then txt else html_unescape (unescape_slashes txt))"

text \<open>
  What \<open>html.unescape\<close> does with the character reference \<open>&#1;\<close>: U+0001 is one of
  the code points a reference may not name, and the reference is replaced by the empty
  string. The constant below stands for \<open>html.unescape\<close> where the model is run on a page
  whose iframe source is that reference; it is \<open>html.unescape\<close> on that text and on every
  text without an ampersand, which \<open>html.unescape\<close> returns as it is.
\<close>

definition html_unescape_charref_1 :: "string \<Rightarrow> string" where
  "html_unescape_charref_1 txt = (if txt = ''&#1;'' then [] else txt)"

definition fetch_iframe_url :: "(string \<Rightarrow> string) \<Rightarrow> http_outcome \<Rightarrow> string option \<times> bool" where
  "fetch_iframe_url html_unescape outcome =
     (case outcome of
        Responded status_code body \<Rightarrow>
          if status_code = 200 then
            (case find_iframe_src body of
               Some iframe_src \<Rightarrow> (Some (unescape_text html_unescape iframe_src), True)
             | None \<Rightarrow> (None, False))
          else (None, False)
      | _ \<Rightarrow> (None, False))"

text \<open>
  A transformed WebcamTaxi record carries two internal keys until the results are applied.
\<close>

record wct_pending = webcam +
  page_url :: string
  fallback_url :: string

text \<open>Truthiness of \<open>iframe_url\<close>: neither \<open>None\<close> nor the empty string.\<close>

definition truthy_str :: "string option \<Rightarrow> bool" where
  "truthy_str s = (s \<noteq> None \<and> s \<noteq> Some [])"

definition apply_iframe_result :: "string option \<times> bool \<Rightarrow> wct_pending \<Rightarrow> webcam" where
  "apply_iframe_result result rec =
     (let (iframe_url, success) = result
      in webcam.truncate
           (if success \<and> truthy_str iframe_url
            then rec\<lparr>url := iframe_url, verified := Some True, radius := Some VERIFIED_RADIUS\<rparr>
            else rec\<lparr>url := Some (fallback_url rec), verified := Some False,
                     radius := Some UNVERIFIED_RADIUS\<rparr>))"

text \<open>
  "Apply results", from index \<open>i\<close> on. Unpacking \<open>results[i]\<close> raises \<open>TypeError\<close> if the
  slot still holds \<open>None\<close>.
\<close>

fun apply_iframe_results ::
  "nat \<Rightarrow> (string option \<times> bool) option list \<Rightarrow> (string \<times> wct_pending) list
   \<Rightarrow> py_error + (string \<times> webcam) list" where
  "apply_iframe_results i results [] = Inr []"
| "apply_iframe_results i results ((country, rec) # rest) =
     (case results ! i of
        None \<Rightarrow> Inl TypeError
      | Some result \<Rightarrow>
          (case apply_iframe_results (Suc i) results rest of
             Inl e \<Rightarrow> Inl e
           | Inr done \<Rightarrow> Inr ((country, apply_iframe_result result rec) # done)))"

definition fetch_batch ::
  "(string \<Rightarrow> string) \<Rightarrow> http_outcome list \<Rightarrow> nat list \<Rightarrow> nat
   \<Rightarrow> (string option \<times> bool) option list" where
  "fetch_batch html_unescape responses completion_order n =
     collect_results completion_order
       (\<lambda>idx. fetch_iframe_url html_unescape (response_of responses idx)) n"

text \<open>
  Step 3 of \<open>main\<close>: the pool fetches every page, then the results are applied.
  \<open>transformed\<close> is the list of pairs of country (from \<open>slug_to_country\<close>) and pending
  record that step 2 builds from the features.
\<close>

definition extract_step ::
  "(string \<Rightarrow> string) \<Rightarrow> http_outcome list \<Rightarrow> nat list \<Rightarrow> (string \<times> wct_pending) list
   \<Rightarrow> py_error + (string \<times> webcam) list" where
  "extract_step html_unescape responses completion_order transformed =
     apply_iframe_results 0
       (fetch_batch html_unescape responses completion_order (length transformed)) transformed"

definition merge_webcamtaxi_main ::
  "(string \<Rightarrow> string) \<Rightarrow> http_outcome list \<Rightarrow> nat list \<Rightarrow> (string \<times> webcam list) list
   \<Rightarrow> (string \<times> wct_pending) list \<Rightarrow> py_error + (string \<times> webcam list) list" where
  "merge_webcamtaxi_main html_unescape responses completion_order combined transformed =
     (case extract_step html_unescape responses completion_order transformed of
        Inl e \<Rightarrow> Inl e
      | Inr transformed \<Rightarrow> Inr (sorted_items (merge_into combined transformed)))"

section \<open>The place lookup: skyline\_geocoder.py and smart\_geocoder.py\<close>

text \<open>
  Python floats are IEEE 754 doubles. A finite double is modelled by the rational number
  it stands for. \<open>round_to_double\<close> is rounding to the nearest double, ties to the even
  significand: the significand has 53 bits, and below \<open>2 ^ -1022\<close> the spacing stays
  \<open>2 ^ -1074\<close>. Reading a number literal, as \<open>json\<close> and the Python parser do, and
  subtracting two doubles both round this way; \<open>abs\<close> and the comparison are exact.
  Outside the model are the values that are not finite doubles: a literal too large for a
  double, \<open>NaN\<close> and \<open>Infinity\<close>, and an integer literal of magnitude \<open>2 ^ 53\<close> or more
  (which Python keeps as an exact \<open>int\<close>).
\<close>

definition round_half_even :: "rat \<Rightarrow> int" where
  "round_half_even x =
     (let f = \<lfloor>x\<rfloor>; d = x - of_int f
      in if d < 1 / 2 then f else if 1 / 2 < d then f + 1 else if even f then f else f + 1)"

text \<open>The \<open>e\<close> with \<open>2 ^ e \<le> |x| < 2 ^ (e + 1)\<close>, for \<open>x\<close> other than 0.\<close>

definition binary_exponent :: "rat \<Rightarrow> int" where
  "binary_exponent x =
     (let (p, q) = quotient_of \<bar>x\<bar>; e0 = bitlen p - bitlen q
      in if 2 powi e0 \<le> \<bar>x\<bar> then e0 else e0 - 1)"

definition round_to_double :: "rat \<Rightarrow> rat" where
  "round_to_double x =
     (if x = 0 then 0
      else (let e = max (binary_exponent x) (- 1022); ulp = 2 powi (e - 52)
            in of_int (round_half_even (x / ulp)) * ulp))"

text \<open>\<open>a - b\<close> on two doubles.\<close>

definition double_sub :: "rat \<Rightarrow> rat \<Rightarrow> rat" where
  "double_sub a b = round_to_double (a - b)"

text \<open>
  The JSON answer of the Find Place service, as far as \<open>geocode_query\<close> reads it. An
  object with numeric members is an association list; \<open>None\<close> stands for an absent key.
  The corners of the viewport hold the numbers as the answer writes them; \<open>response.json()\<close>
  turns each into a double.
\<close>

text \<open>The literal \<open>0.02\<close> of the scripts is the double nearest to it.\<close>

definition MAX_VIEWPORT_SPAN_DEG :: rat where
  "MAX_VIEWPORT_SPAN_DEG = round_to_double (2 / 100)"

record viewport =
  northeast :: "(string \<times> rat) list option"
  southwest :: "(string \<times> rat) list option"

record geometry =
  location :: "(string \<times> real) list option"
  viewport :: "viewport option"

record places_data =
  status :: "string option"
  candidates :: "geometry option list"

record geo_result =
  lat :: real
  lng :: real
  is_area :: bool

text \<open>\<open>obj.get(key, dflt)\<close>.\<close>

definition get_or :: "(string \<times> 'a) list \<Rightarrow> string \<Rightarrow> 'a \<Rightarrow> 'a" where
  "get_or obj key dflt = (case map_of obj key of Some v \<Rightarrow> v | None \<Rightarrow> dflt)"

text \<open>
  The viewport check, the same lines in both scripts: \<open>ne\<close> and \<open>sw\<close> default to the empty
  object, and the spans are compared only \<open>if ne and sw\<close>. \<open>corner_value\<close> is
  \<open>corner.get(key, 0)\<close> on the parsed answer.
\<close>

definition corner_value :: "(string \<times> rat) list \<Rightarrow> string \<Rightarrow> rat" where
  "corner_value corner key = round_to_double (get_or corner key 0)"

definition viewport_is_area :: "viewport option \<Rightarrow> bool" where
  "viewport_is_area vp =
     (let ne = (case vp of None \<Rightarrow> []
                | Some v \<Rightarrow> (case northeast v of None \<Rightarrow> [] | Some obj \<Rightarrow> obj));
          sw = (case vp of None \<Rightarrow> []
                | Some v \<Rightarrow> (case southwest v of None \<Rightarrow> [] | Some obj \<Rightarrow> obj))
      in if ne \<noteq> [] \<and> sw \<noteq> [] then
           (let lat_span = \<bar>double_sub (corner_value ne ''lat'') (corner_value sw ''lat'')\<bar>;
                lng_span = \<bar>double_sub (corner_value ne ''lng'') (corner_value sw ''lng'')\<bar>
            in lat_span > MAX_VIEWPORT_SPAN_DEG \<or> lng_span > MAX_VIEWPORT_SPAN_DEG)
         else False)"

text \<open>
  \<open>geocode_query\<close> from \<open>data = response.json()\<close> on. The \<open>viewport_span\<close> entry of the
  skyline script's result is only printed and is left out.
\<close>

definition geocode_data :: "places_data \<Rightarrow> geo_result option" where
  "geocode_data data =
     (if status data \<noteq> Some ''OK'' \<or> candidates data = [] then None
      else
        (let geom = hd (candidates data);
             loc = (case geom of None \<Rightarrow> []
                    | Some g \<Rightarrow> (case location g of None \<Rightarrow> [] | Some obj \<Rightarrow> obj));
             vp = (case geom of None \<Rightarrow> None | Some g \<Rightarrow> viewport g)
         in case (map_of loc ''lat'', map_of loc ''lng'') of
              (Some lat_value, Some lng_value) \<Rightarrow>
                Some \<lparr>lat = lat_value, lng = lng_value, is_area = viewport_is_area vp\<rparr>
            | _ \<Rightarrow> None))"

text \<open>
  What the service does for a query: an answer, or a failed request
  (\<open>requests.RequestException\<close>, also raised by \<open>raise_for_status\<close>).
\<close>

datatype places_reply = Reply places_data | Request_error

definition lookup_place :: "(string \<times> places_reply) list \<Rightarrow> string \<Rightarrow> places_reply" where
  "lookup_place service query =
     (case map_of service query of Some reply \<Rightarrow> reply | None \<Rightarrow> Request_error)"

text \<open>The skyline script lets the exception through; the smart script returns \<open>None\<close>.\<close>

definition skyline_geocode_query :: "places_reply \<Rightarrow> py_error + geo_result option" where
  "skyline_geocode_query reply =
     (case reply of Request_error \<Rightarrow> Inl RequestException | Reply data \<Rightarrow> Inr (geocode_data data))"

definition smart_geocode_query :: "places_reply \<Rightarrow> geo_result option" where
  "smart_geocode_query reply =
     (case reply of Request_error \<Rightarrow> None | Reply data \<Rightarrow> geocode_data data)"

text \<open>
  One record of the loop in \<open>main\<close> of skyline\_geocoder.py; the result is the record
  appended to \<open>country_results\<close>.
\<close>

definition skyline_geocode_record ::
  "(string \<times> places_reply) list \<Rightarrow> jval list \<Rightarrow> py_error + jval list" where
  "skyline_geocode_record service record =
     (let tag = (if length record > 3 then record ! 3 else JStr [])
      in if tag = JStr ''manual'' then Inr record
         else if tag \<noteq> JStr ''automatic'' then Inr record
         else
           (case (field_or_empty record 0, field_or_empty record 1) of
              (JStr h1, JStr h2) \<Rightarrow>
                (case extract_search_query h1 h2 of
                   None \<Rightarrow> Inr record
                 | Some query \<Rightarrow>
                     if query = [] then Inr record
                     else
                       (case skyline_geocode_query (lookup_place service query) of
                          Inl e \<Rightarrow> Inr record
                        | Inr None \<Rightarrow> Inr record
                        | Inr (Some result) \<Rightarrow>
                            (let enriched = take 5 record
                             in if is_area result
                                then Inr (enriched[3 := JStr ''manual'']
                                          @ [JFloat (lat result), JFloat (lng result)])
                                else Inr (enriched
                                          @ [JFloat (lat result), JFloat (lng result)]))))
            | _ \<Rightarrow> Inl AttributeError))"

text \<open>The cascade of smart\_geocoder.py: the first query with a result.\<close>

fun try_queries :: "(string \<times> places_reply) list \<Rightarrow> string list \<Rightarrow> geo_result option" where
  "try_queries service [] = None"
| "try_queries service (q # queries) =
     (case smart_geocode_query (lookup_place service q) of
        Some result \<Rightarrow> Some result
      | None \<Rightarrow> try_queries service queries)"

text \<open>
  One record of the loop in \<open>main\<close> of smart\_geocoder.py. \<open>queries\<close> is what
  \<open>build_queries\<close> has returned for the record. Only records whose \<open>verified\<close> is not true
  are visited.
\<close>

definition smart_geocode_record ::
  "(string \<times> places_reply) list \<Rightarrow> string list \<Rightarrow> 'a webcam_scheme \<Rightarrow> 'a webcam_scheme" where
  "smart_geocode_record service queries rec =
     (if verified rec = Some True then rec
      else if latitude rec \<noteq> None \<and> longitude rec \<noteq> None then rec
      else if queries = [] then rec
      else
        (case try_queries service queries of
           None \<Rightarrow> rec
         | Some result \<Rightarrow>
             (let rec = rec\<lparr>latitude := Some (lat result), longitude := Some (lng result)\<rparr>
              in if is_area result then rec else rec\<lparr>verified := Some True\<rparr>)))"

section \<open>retry\_webcamtaxi\_iframes.py\<close>

definition retry_fetch_iframe_url ::
  "(string \<Rightarrow> string) \<Rightarrow> http_outcome \<Rightarrow> string option \<times> int \<times> bool" where
  "retry_fetch_iframe_url html_unescape outcome =
     (case outcome of
        Responded status_code body \<Rightarrow>
          if status_code = 200 then
            (case find_iframe_src body of
               Some iframe_src \<Rightarrow> (Some (unescape_text html_unescape iframe_src), status_code, True)
             | None \<Rightarrow> (None, status_code, False))
          else (None, status_code, False)
      | Timed_out \<Rightarrow> (None, 0, False)
      | Failed_request \<Rightarrow> (None, - 1, False))"

text \<open>\<open>rec.get("source") == "WCT" and rec.get("verified") is False\<close>.\<close>

definition is_retry_target :: "'a webcam_scheme \<Rightarrow> bool" where
  "is_retry_target rec = (source rec = Some ''WCT'' \<and> verified rec = Some False)"

definition wct_targets ::
  "(string \<times> 'a webcam_scheme list) list \<Rightarrow> (string \<times> nat \<times> 'a webcam_scheme) list" where
  "wct_targets combined =
     concat (map (\<lambda>(country, records).
                    map (\<lambda>(idx, rec). (country, idx, rec))
                      (filter (\<lambda>(idx, rec). is_retry_target rec) (enumerate 0 records)))
               combined)"

text \<open>"Apply results" for one target: nothing is written when the fetch has failed.\<close>

definition apply_retry_result ::
  "string option \<times> int \<times> bool \<Rightarrow> 'a webcam_scheme \<Rightarrow> 'a webcam_scheme" where
  "apply_retry_result result rec =
     (let (iframe_url, http_status, success) = result
      in if success \<and> truthy_str iframe_url
         then rec\<lparr>url := iframe_url, verified := Some True, radius := Some VERIFIED_RADIUS\<rparr>
         else rec)"

text \<open>
  The targets are references to the records of \<open>combined\<close>, collected bucket by bucket in
  order, so the \<open>i\<close>-th result is applied to the \<open>i\<close>-th target met on a walk through
  \<open>combined\<close>; \<open>i\<close> counts the targets met so far. Unpacking \<open>results[i]\<close> raises
  \<open>TypeError\<close> if the slot still holds \<open>None\<close>.
\<close>

fun retry_records ::
  "(string option \<times> int \<times> bool) option list \<Rightarrow> nat \<Rightarrow> 'a webcam_scheme list
   \<Rightarrow> py_error + 'a webcam_scheme list \<times> nat" where
  "retry_records results i [] = Inr ([], i)"
| "retry_records results i (rec # records) =
     (if is_retry_target rec then
        (case results ! i of
           None \<Rightarrow> Inl TypeError
         | Some result \<Rightarrow>
             (case retry_records results (Suc i) records of
                Inl e \<Rightarrow> Inl e
              | Inr (done, j) \<Rightarrow> Inr (apply_retry_result result rec # done, j)))
      else
        (case retry_records results i records of
           Inl e \<Rightarrow> Inl e
         | Inr (done, j) \<Rightarrow> Inr (rec # done, j)))"

fun retry_buckets ::
  "(string option \<times> int \<times> bool) option list \<Rightarrow> nat \<Rightarrow> (string \<times> 'a webcam_scheme list) list
   \<Rightarrow> py_error + (string \<times> 'a webcam_scheme list) list" where
  "retry_buckets results i [] = Inr []"
| "retry_buckets results i ((country, records) # rest) =
     (case retry_records results i records of
        Inl e \<Rightarrow> Inl e
      | Inr (done, j) \<Rightarrow>
          (case retry_buckets results j rest of
             Inl e \<Rightarrow> Inl e
           | Inr after \<Rightarrow> Inr ((country, done) # after)))"

text \<open>\<open>main\<close>: with no target it returns before anything is fetched or written.\<close>

definition retry_main ::
  "(string \<Rightarrow> string) \<Rightarrow> http_outcome list \<Rightarrow> nat list \<Rightarrow> (string \<times> 'a webcam_scheme list) list
   \<Rightarrow> py_error + (string \<times> 'a webcam_scheme list) list" where
  "retry_main html_unescape responses completion_order combined =
     (let total = length (wct_targets combined)
      in if total = 0 then Inr combined
         else
           (let results =
                  collect_results completion_order
                    (\<lambda>i. retry_fetch_iframe_url html_unescape (response_of responses i)) total
            in retry_buckets results 0 combined))"

text \<open>
  The walk with every result present, as a plain function; the proofs below compare
  \<open>retry_records\<close> with it.
\<close>

fun retry_walk ::
  "(nat \<Rightarrow> string option \<times> int \<times> bool) \<Rightarrow> nat \<Rightarrow> 'a webcam_scheme list \<Rightarrow> 'a webcam_scheme list"
  where
  "retry_walk result_of i [] = []"
| "retry_walk result_of i (rec # records) =
     (if is_retry_target rec
      then apply_retry_result (result_of i) rec # retry_walk result_of (Suc i) records
      else rec # retry_walk result_of i records)"

section \<open>Properties\<close>

lemma str_contains_iff: "str_contains kw s \<longleftrightarrow> (\<exists>pre post. s = pre @ kw @ post)"
proof (induction s)
  case Nil
  then show ?case by auto
next
  case (Cons c cs)
  show ?case
  proof
    assume "str_contains kw (c # cs)"
    then consider "prefix kw (c # cs)" | "str_contains kw cs" by auto
    then show "\<exists>pre post. c # cs = pre @ kw @ post"
    proof cases
      case 1
      then obtain post where "c # cs = kw @ post" by (auto simp: prefix_def)
      then have "c # cs = [] @ kw @ post" by simp
      then show ?thesis by blast
    next
      case 2
      with Cons.IH obtain pre post where "cs = pre @ kw @ post" by blast
      then have "c # cs = (c # pre) @ kw @ post" by simp
      then show ?thesis by blast
    qed
  next
    assume "\<exists>pre post. c # cs = pre @ kw @ post"
    then obtain pre post where eq: "c # cs = pre @ kw @ post" by blast
    show "str_contains kw (c # cs)"
    proof (cases pre)
      case Nil
      with eq have "prefix kw (c # cs)" by (simp add: prefix_def)
      then show ?thesis by simp
    next
      case (Cons p ps)
      with eq have "cs = ps @ kw @ post" by simp
      with Cons.IH have "str_contains kw cs" by blast
      then show ?thesis by simp
    qed
  qed
qed

text \<open>
  C1. Whenever the lowercased text of title, one space and subtitle contains one of the
  vague keywords, \<open>classify_record\<close> returns manual with radius 2500; nothing is assumed
  about landmark keywords, which the text may contain as well.
\<close>

theorem classify_record_vague_first:
  assumes "kw \<in> set VAGUE_KEYWORDS"
    and "str_contains kw (py_lower (h1 @ '' '' @ h2))"
  shows "classify_record h1 h2 = (''manual'', 2500)"
proof -
  from assms have "list_ex (\<lambda>kw. str_contains kw (py_lower (h1 @ '' '' @ h2))) VAGUE_KEYWORDS"
    unfolding list_ex_iff by blast
  then show ?thesis
    unfolding classify_record_def Let_def by (simp only: if_True)
qed

theorem classify_record_vague_first_witness:
  "''panorama'' \<in> set VAGUE_KEYWORDS
   \<and> str_contains ''panorama'' (py_lower (''Copacabana Beach Panorama'' @ '' '' @ ''Rio''))
   \<and> re_search_word True ''beach'' (py_lower (''Copacabana Beach Panorama'' @ '' '' @ ''Rio''))
   \<and> classify_record ''Copacabana Beach Panorama'' ''Rio'' = (''manual'', 2500)"
proof -
  have k: "''panorama'' \<in> set VAGUE_KEYWORDS"
    by (simp add: VAGUE_KEYWORDS_def)
  have c: "str_contains ''panorama'' (py_lower (''Copacabana Beach Panorama'' @ '' '' @ ''Rio''))"
    by code_simp
  have b: "re_search_word True ''beach'' (py_lower (''Copacabana Beach Panorama'' @ '' '' @ ''Rio''))"
    by code_simp
  from classify_record_vague_first [OF k c] k c b show ?thesis by blast
qed

lemma landmark_result_cases:
  "landmark_result kw \<in> {(''automatic'', 200), (''automatic'', 100), (''automatic'', 50),
      (''automatic'', 150), (''automatic'', 300), (''automatic'', 500), (''manual'', 500),
      (''manual'', 300)}"
  unfolding landmark_result_def
  by (simp only: if_split insert_iff prod.inject simp_thms split: if_splits)

lemma classify_record_cases:
  "classify_record h1 h2 \<in> {(''manual'', 2500), (''manual'', 2000), (''automatic'', 500),
      (''automatic'', 200), (''automatic'', 100), (''automatic'', 50),
      (''automatic'', 150), (''automatic'', 300), (''manual'', 500), (''manual'', 300)}"
proof -
  let ?c = "py_lower (h1 @ '' '' @ h2)"
  show ?thesis
  proof (cases "list_ex (\<lambda>kw. str_contains kw ?c) VAGUE_KEYWORDS")
    case True
    then have "classify_record h1 h2 = (''manual'', 2500)"
      unfolding classify_record_def Let_def by (simp only: if_True)
    then show ?thesis by simp
  next
    case nv: False
    show ?thesis
    proof (cases "find (\<lambda>kw. re_search_word True kw ?c) SPECIFIC_KEYWORDS")
      case None
      with nv have "classify_record h1 h2 = (''manual'', 2000) \<or> classify_record h1 h2 = (''automatic'', 500)"
        unfolding classify_record_def Let_def by (simp only: if_False option.case) (simp split: if_splits)
      then show ?thesis by auto
    next
      case (Some kw)
      with nv have "classify_record h1 h2 = landmark_result kw"
        unfolding classify_record_def Let_def by (simp only: if_False option.case)
      with landmark_result_cases [of kw] show ?thesis by auto
    qed
  qed
qed

lemma classify_record_tag:
  "fst (classify_record h1 h2) = ''automatic'' \<or> fst (classify_record h1 h2) = ''manual''"
  using classify_record_cases [of h1 h2] by auto


lemma not_index_tag: "\<not> index_page_title ''automatic''" "\<not> index_page_title ''manual''"
  by code_simp+

lemma classify_one_keeps_no_index:
  assumes "classify_one record = Inr (Some new_record)"
  shows "\<not> has_index_title new_record"
proof (cases "field_or_empty record 0")
  case (JStr h1)
  show ?thesis
  proof (cases "index_page_title h1")
    case True
    with JStr assms show ?thesis by (simp add: classify_one_def)
  next
    case ni: False
    show ?thesis
    proof (cases "length record \<ge> 4 \<and> record ! 3 = JStr ''manual''")
      case True
      then have len: "length record \<ge> 4" by simp
      show ?thesis
      proof (cases "length record < 5")
        case True
        with JStr ni len assms \<open>length record \<ge> 4 \<and> record ! 3 = JStr ''manual''\<close>
        obtain r where "new_record = take 4 record @ [JInt r]"
          by (auto simp: classify_one_def split: jval.splits)
        with len have "field_or_empty new_record 0 = field_or_empty record 0"
          by (cases "record") (simp_all add: field_or_empty_def)
        with JStr ni show ?thesis by (simp add: has_index_title_def)
      next
        case False
        with JStr ni assms \<open>length record \<ge> 4 \<and> record ! 3 = JStr ''manual''\<close>
        have "new_record = record" by (simp add: classify_one_def)
        with JStr ni show ?thesis by (simp add: has_index_title_def)
      qed
    next
      case False
      with JStr ni assms obtain h2 where
        nr: "new_record = take 3 record @ [JStr (fst (classify_record h1 h2)), JInt (snd (classify_record h1 h2))]"
        by (auto simp: classify_one_def Let_def case_prod_beta split: jval.splits)
      show ?thesis
      proof (cases "record")
        case Nil
        with nr have "field_or_empty new_record 0 = JStr (fst (classify_record h1 h2))"
          by (simp add: field_or_empty_def)
        with classify_record_tag [of h1 h2] not_index_tag show ?thesis
          by (auto simp: has_index_title_def)
      next
        case (Cons a as)
        with nr have "field_or_empty new_record 0 = field_or_empty record 0"
          by (simp add: field_or_empty_def)
        with JStr ni show ?thesis by (simp add: has_index_title_def)
      qed
    qed
  qed
qed (use assms in \<open>auto simp: classify_one_def\<close>)

lemma classify_country_no_index:
  "classify_country records = Inr country_results \<Longrightarrow> r \<in> set country_results
   \<Longrightarrow> \<not> has_index_title r"
proof (induction "records" arbitrary: country_results)
  case Nil
  then show ?case by simp
next
  case (Cons rcd rcds)
  then show ?case
    by (auto split: sum.splits option.splits dest: classify_one_keeps_no_index)
qed

lemma classify_main_no_index:
  "classify_main data = Inr output_data \<Longrightarrow> (country, results) \<in> set output_data
   \<Longrightarrow> r \<in> set results \<Longrightarrow> \<not> has_index_title r"
proof (induction data arbitrary: output_data)
  case Nil
  then show ?case by simp
next
  case (Cons a data)
  obtain c recs where a: "a = (c, recs)" by (cases a)
  from Cons.prems a show ?case
    by (auto split: sum.splits dest: classify_country_no_index Cons.IH)
qed

text \<open>
  C9. A record whose title starts, after lowercasing, with "live cams in" or "liva cams in"
  is skipped by the loop before the manual tag is looked at, and no record of the output
  of \<open>main\<close> has such a title.
\<close>

theorem index_pages_dropped:
  "(has_index_title record \<longrightarrow> classify_one record = Inr None)
   \<and> (classify_main data = Inr output_data \<longrightarrow>
        (\<forall>(country, results) \<in> set output_data. \<forall>r \<in> set results. \<not> has_index_title r))"
proof
  show "has_index_title record \<longrightarrow> classify_one record = Inr None"
    by (auto simp: has_index_title_def classify_one_def split: jval.splits)
  show "classify_main data = Inr output_data \<longrightarrow>
        (\<forall>(country, results) \<in> set output_data. \<forall>r \<in> set results. \<not> has_index_title r)"
    using classify_main_no_index by blast
qed

theorem index_pages_dropped_witness:
  "has_index_title [JStr ''LIVE CAMS IN Norway'', JStr ''All cams'', JStr ''u1'', JStr ''manual'']
   \<and> classify_one [JStr ''LIVE CAMS IN Norway'', JStr ''All cams'', JStr ''u1'', JStr ''manual'']
       = Inr None
   \<and> classify_main
       [(''Norway'',
         [[JStr ''LIVE CAMS IN Norway'', JStr ''All cams'', JStr ''u1'', JStr ''manual''],
          [JStr ''Oslo Beach'', JStr ''Oslo'', JStr ''u2'']])]
       = Inr [(''Norway'', [[JStr ''Oslo Beach'', JStr ''Oslo'', JStr ''u2'', JStr ''automatic'', JInt 200]])]
   \<and> \<not> has_index_title [JStr ''Oslo Beach'', JStr ''Oslo'', JStr ''u2'', JStr ''automatic'', JInt 200]"
proof -
  let ?idx = "[JStr ''LIVE CAMS IN Norway'', JStr ''All cams'', JStr ''u1'', JStr ''manual'']"
  let ?data = "[(''Norway'', [?idx, [JStr ''Oslo Beach'', JStr ''Oslo'', JStr ''u2'']])]"
  let ?out = "[(''Norway'', [[JStr ''Oslo Beach'', JStr ''Oslo'', JStr ''u2'', JStr ''automatic'', JInt 200]])]"
  have h: "has_index_title ?idx" by code_simp
  have m: "classify_main ?data = Inr ?out" by code_simp
  from index_pages_dropped [of ?idx ?data ?out] h m show ?thesis by simp
qed

text \<open>
  C6, as the code has it. For the title "Porto Seguro - Praia de Taperapuan Live cam" and
  the subtitle "Praia de Taperapuan, Porto Seguro" the query is "porto seguro praia de":
  \<open>clean_words\<close> splits at whitespace only, so the subtitle's word is "taperapuan," with
  its comma, and the title's "taperapuan" is not common to both sides.
\<close>

theorem porto_seguro_query:
  "extract_search_query ''Porto Seguro - Praia de Taperapuan Live cam''
       ''Praia de Taperapuan, Porto Seguro'' = Some ''porto seguro praia de''
   \<and> clean_words ''Porto Seguro - Praia de Taperapuan Live cam''
       = [''porto'', ''seguro'', ''praia'', ''de'', ''taperapuan'']
   \<and> clean_words ''Praia de Taperapuan, Porto Seguro''
       = [''praia'', ''de'', ''taperapuan,'', ''porto'', ''seguro'']"
  by code_simp

text \<open>
  The query is returned, and "taperapuan" is neither one of its words nor a part of it.
\<close>

theorem porto_seguro_query_counterexample:
  "extract_search_query ''Porto Seguro - Praia de Taperapuan Live cam''
       ''Praia de Taperapuan, Porto Seguro'' \<noteq> None
   \<and> ''taperapuan'' \<notin> set (py_split (the (extract_search_query
         ''Porto Seguro - Praia de Taperapuan Live cam'' ''Praia de Taperapuan, Porto Seguro'')))
   \<and> \<not> str_contains ''taperapuan'' (the (extract_search_query
         ''Porto Seguro - Praia de Taperapuan Live cam'' ''Praia de Taperapuan, Porto Seguro''))"
  by code_simp

lemma lower_char_idem: "lower_char (lower_char c) = lower_char c"
  by (auto simp: lower_char_def is_upper_char_def Let_def)

lemma cased_lower: "is_cased_char (lower_char c) = is_cased_char c"
  by (auto simp: is_cased_char_def is_lower_char_def lower_char_def is_upper_char_def Let_def)

lemma title_char_idem: "title_char c = Some mapped \<Longrightarrow> title_char mapped = Some mapped"
proof -
  assume a: "title_char c = Some mapped"
  let ?n = "of_char c :: nat"
  show ?thesis
  proof (cases "(97 \<le> ?n \<and> ?n \<le> 122) \<or> (224 \<le> ?n \<and> ?n \<le> 254 \<and> ?n \<noteq> 247)")
    case True
    with a have m: "mapped = char_of (?n - 32)" by (simp add: title_char_def Let_def)
    from True have "(?n - 32) mod 256 = ?n - 32" by auto
    with m have o: "(of_char mapped :: nat) = ?n - 32" by simp
    with True show ?thesis unfolding title_char_def Let_def o by auto
  next
    case False
    with a have "mapped = c" by (simp add: title_char_def Let_def split: if_splits)
    with a show ?thesis by simp
  qed
qed

lemma cased_title: "title_char c = Some mapped \<Longrightarrow> is_cased_char mapped = is_cased_char c"
proof -
  assume a: "title_char c = Some mapped"
  let ?n = "of_char c :: nat"
  show ?thesis
  proof (cases "(97 \<le> ?n \<and> ?n \<le> 122) \<or> (224 \<le> ?n \<and> ?n \<le> 254 \<and> ?n \<noteq> 247)")
    case True
    with a have m: "mapped = char_of (?n - 32)" by (simp add: title_char_def Let_def)
    from True have "(?n - 32) mod 256 = ?n - 32" by auto
    with m have o: "(of_char mapped :: nat) = ?n - 32" by simp
    from True have "is_lower_char c" by (auto simp: is_lower_char_def Let_def)
    moreover from True o have "is_upper_char mapped"
      unfolding is_upper_char_def Let_def by auto
    ultimately show ?thesis by (simp add: is_cased_char_def)
  next
    case False
    with a have "mapped = c" by (simp add: title_char_def Let_def split: if_splits)
    then show ?thesis by simp
  qed
qed

lemma title_from_idem: "title_from b s = Some t \<Longrightarrow> title_from b t = Some t"
proof (induction s arbitrary: b t)
  case Nil
  then show ?case by simp
next
  case (Cons c cs)
  from Cons.prems obtain mapped rest where
    m: "(if b then Some (lower_char c) else title_char c) = Some mapped"
    and r: "title_from (is_cased_char c) cs = Some rest"
    and t: "t = mapped # rest"
    by (auto split: option.splits)
  from r have r': "title_from (is_cased_char c) rest = Some rest" by (rule Cons.IH)
  from m have c: "is_cased_char mapped = is_cased_char c"
    by (auto simp: cased_lower cased_title split: if_splits)
  from m have "(if b then Some (lower_char mapped) else title_char mapped) = Some mapped"
    by (auto simp: lower_char_idem title_char_idem split: if_splits)
  with r' c t show ?case by simp
qed

lemma py_title_idem: "py_title s = Some t \<Longrightarrow> py_title t = Some t"
  unfolding py_title_def by (rule title_from_idem)

lemma title_char_ascii: "(of_char c :: nat) < 128 \<Longrightarrow> title_char c \<noteq> None"
  by (auto simp: title_char_def Let_def)

lemma title_from_ascii:
  "\<forall>c \<in> set s. (of_char c :: nat) < 128 \<Longrightarrow> title_from b s \<noteq> None"
proof (induction s arbitrary: b)
  case Nil
  then show ?case by simp
next
  case (Cons c cs)
  then have "title_char c \<noteq> None" and "title_from (is_cased_char c) cs \<noteq> None"
    using title_char_ascii by auto
  then show ?case by (auto split: option.splits)
qed

lemma lower_char_hyphen: "lower_char c = CHR ''-'' \<Longrightarrow> c = CHR ''-''"
proof (cases "is_upper_char c")
  case True
  assume "lower_char c = CHR ''-''"
  with True have "char_of ((of_char c :: nat) + 32) = CHR ''-''" by (simp add: lower_char_def)
  then have "(of_char (char_of ((of_char c :: nat) + 32)) :: nat) = of_char (CHR ''-'')" by simp
  then have "((of_char c :: nat) + 32) mod 256 = 45" by simp
  with True show ?thesis by (auto simp: is_upper_char_def Let_def)
next
  case False
  assume "lower_char c = CHR ''-''"
  with False show ?thesis by (simp add: lower_char_def)
qed

lemma title_char_hyphen: "title_char c = Some (CHR ''-'') \<Longrightarrow> c = CHR ''-''"
proof -
  assume a: "title_char c = Some (CHR ''-'')"
  let ?n = "of_char c :: nat"
  show ?thesis
  proof (cases "(97 \<le> ?n \<and> ?n \<le> 122) \<or> (224 \<le> ?n \<and> ?n \<le> 254 \<and> ?n \<noteq> 247)")
    case True
    with a have "char_of (?n - 32) = CHR ''-''" by (simp add: title_char_def Let_def)
    then have "(of_char (char_of (?n - 32)) :: nat) = of_char (CHR ''-'')" by simp
    then have "(?n - 32) mod 256 = 45" by simp
    with True show ?thesis by auto
  next
    case False
    with a show ?thesis by (simp add: title_char_def Let_def split: if_splits)
  qed
qed

lemma title_char_not_ascii_lower:
  "title_char c = Some mapped
   \<Longrightarrow> \<not> (97 \<le> (of_char mapped :: nat) \<and> (of_char mapped :: nat) \<le> 122)"
  by (auto simp: title_char_def Let_def split: if_splits)

lemma slug_keys_lower:
  "list_all (\<lambda>(k, v). k \<noteq> [] \<and> 97 \<le> (of_char (hd k) :: nat) \<and> (of_char (hd k) :: nat) \<le> 122) COUNTRY_SLUG_MAP"
  by code_simp

lemma slug_values_fixed:
  "list_all (\<lambda>(k, v). k \<in> set [''bosnia-herzegovina'', ''dr-congo''] \<or> slug_to_country v = Some v)
     COUNTRY_SLUG_MAP"
  by code_simp

lemma alias_values_fixed:
  "list_all (\<lambda>(k, v). resolve_country v = v) COUNTRY_ALIASES"
  by code_simp

lemma unknown_fixed: "resolve_country ''Unknown'' = ''Unknown''"
  by code_simp

lemma title_from_no_hyphen:
  "CHR ''-'' \<notin> set s \<Longrightarrow> title_from b s = Some t \<Longrightarrow> CHR ''-'' \<notin> set t"
proof (induction s arbitrary: b t)
  case Nil
  then show ?case by simp
next
  case (Cons c cs)
  from Cons.prems(2) obtain mapped rest where
    m: "(if b then Some (lower_char c) else title_char c) = Some mapped"
    and r: "title_from (is_cased_char c) cs = Some rest"
    and t: "t = mapped # rest"
    by (auto split: option.splits)
  from Cons.prems(1) have c: "c \<noteq> CHR ''-''" and cs: "CHR ''-'' \<notin> set cs" by auto
  from cs r have "CHR ''-'' \<notin> set rest" by (rule Cons.IH)
  moreover from m c have "mapped \<noteq> CHR ''-''"
    using lower_char_hyphen title_char_hyphen by (auto split: if_splits)
  ultimately show ?case using t by auto
qed

lemma replace_char_absent: "a \<notin> set s \<Longrightarrow> replace_char a r s = s"
  by (induction s) (auto simp: replace_char_def)

lemma replace_hyphen_gone: "CHR ''-'' \<notin> set (replace_char CHR ''-'' '' '' s)"
  by (induction s) (auto simp: replace_char_def)

lemma title_not_slug_key: "py_title s = Some t \<Longrightarrow> map_of COUNTRY_SLUG_MAP t = None"
proof (cases "map_of COUNTRY_SLUG_MAP t")
  case None
  then show ?thesis .
next
  case (Some v)
  assume p: "py_title s = Some t"
  from Some have "(t, v) \<in> set COUNTRY_SLUG_MAP" by (rule map_of_SomeD)
  with slug_keys_lower have k: "t \<noteq> [] \<and> 97 \<le> (of_char (hd t) :: nat)
      \<and> (of_char (hd t) :: nat) \<le> 122"
    unfolding list_all_iff by blast
  with p obtain c cs where s: "s = c # cs" by (cases s) (auto simp: py_title_def)
  with p have "title_char c = Some (hd t)"
    by (auto simp: py_title_def split: option.splits)
  with k title_char_not_ascii_lower show ?thesis by blast
qed

lemma slug_to_country_unmapped_idem:
  assumes "map_of COUNTRY_SLUG_MAP slug = None"
    and "slug_to_country slug = Some name"
  shows "slug_to_country name = Some name"
proof -
  from assms have y: "py_title (replace_char CHR ''-'' '' '' slug) = Some name"
    by (simp add: slug_to_country_def)
  then have "CHR ''-'' \<notin> set name"
    unfolding py_title_def using replace_hyphen_gone title_from_no_hyphen by blast
  then have "replace_char CHR ''-'' '' '' name = name" by (rule replace_char_absent)
  moreover from y have "map_of COUNTRY_SLUG_MAP name = None" by (rule title_not_slug_key)
  moreover from y have "py_title name = Some name" by (rule py_title_idem)
  ultimately show ?thesis by (simp add: slug_to_country_def)
qed

lemma slug_to_country_ascii:
  assumes "\<forall>c \<in> set slug. (of_char c :: nat) < 128"
  shows "slug_to_country slug \<noteq> None"
proof (cases "map_of COUNTRY_SLUG_MAP slug")
  case None
  have "\<forall>c \<in> set (replace_char CHR ''-'' '' '' slug). (of_char c :: nat) < 128"
    using assms by (induction slug) (auto simp: replace_char_def)
  then have "py_title (replace_char CHR ''-'' '' '' slug) \<noteq> None"
    unfolding py_title_def by (rule title_from_ascii)
  with None show ?thesis by (simp add: slug_to_country_def)
next
  case (Some name)
  then show ?thesis by (simp add: slug_to_country_def)
qed

lemma resolve_country_idem: "resolve_country (resolve_country x) = resolve_country x"
proof (cases "x = [] \<or> py_strip x = []")
  case True
  then have "resolve_country x = ''Unknown''" by (simp add: resolve_country_def)
  with unknown_fixed show ?thesis by simp
next
  case nb: False
  show ?thesis
  proof (cases "map_of COUNTRY_ALIASES x")
    case None
    with nb have "resolve_country x = x" by (simp add: resolve_country_def)
    then show ?thesis by simp
  next
    case (Some v)
    with nb have r: "resolve_country x = v" by (simp add: resolve_country_def)
    from Some have "(x, v) \<in> set COUNTRY_ALIASES" by (rule map_of_SomeD)
    with alias_values_fixed have "resolve_country v = v" unfolding list_all_iff by blast
    with r show ?thesis by simp
  qed
qed

text \<open>
  C4, as the code has it. \<open>resolve_country\<close> is idempotent on every text of code points
  below U+0100. \<open>slug_to_country\<close> returns a name on every text of ASCII characters, as URL
  slugs are, and is idempotent there except on the two slugs whose mapped name is not its
  own title-cased form, "bosnia-herzegovina" and "dr-congo"; the same holds for every other
  text of code points below U+0100 whose title-cased form is such a text again. Beyond
  that \<open>str.title()\<close> itself need not be idempotent, and nothing is stated.
\<close>

theorem canonicalizers_idempotent:
  "resolve_country (resolve_country x) = resolve_country x
   \<and> ((\<forall>c \<in> set slug. (of_char c :: nat) < 128)
        \<and> slug \<noteq> ''bosnia-herzegovina'' \<and> slug \<noteq> ''dr-congo''
      \<longrightarrow> (\<exists>name. slug_to_country slug = Some name \<and> slug_to_country name = Some name))
   \<and> (slug \<noteq> ''bosnia-herzegovina'' \<and> slug \<noteq> ''dr-congo'' \<and> slug_to_country slug = Some name'
      \<longrightarrow> slug_to_country name' = Some name')"
proof -
  have gen: "slug_to_country name' = Some name'"
    if ne: "slug \<noteq> ''bosnia-herzegovina'' \<and> slug \<noteq> ''dr-congo''"
      and s: "slug_to_country slug = Some name'" for name'
  proof (cases "map_of COUNTRY_SLUG_MAP slug")
    case None
    then show ?thesis using s by (rule slug_to_country_unmapped_idem)
  next
    case (Some v)
    with s have r: "name' = v" by (simp add: slug_to_country_def)
    from Some have "(slug, v) \<in> set COUNTRY_SLUG_MAP" by (rule map_of_SomeD)
    with slug_values_fixed ne have "slug_to_country v = Some v" unfolding list_all_iff by auto
    with r show ?thesis by simp
  qed
  have asc: "\<exists>name. slug_to_country slug = Some name \<and> slug_to_country name = Some name"
    if "(\<forall>c \<in> set slug. (of_char c :: nat) < 128)
        \<and> slug \<noteq> ''bosnia-herzegovina'' \<and> slug \<noteq> ''dr-congo''"
  proof -
    from that slug_to_country_ascii obtain name where "slug_to_country slug = Some name"
      by blast
    with that gen show ?thesis by blast
  qed
  from resolve_country_idem gen asc show ?thesis by blast
qed

theorem canonicalizers_idempotent_witness:
  "resolve_country (resolve_country ''England'') = resolve_country ''England''
   \<and> resolve_country ''England'' = ''United Kingdom''
   \<and> list_all (\<lambda>c. (of_char c :: nat) < 128) ''isle-of-man''
   \<and> ''isle-of-man'' \<noteq> ''bosnia-herzegovina'' \<and> ''isle-of-man'' \<noteq> ''dr-congo''
   \<and> slug_to_country ''isle-of-man'' = Some ''Isle Of Man''
   \<and> slug_to_country ''Isle Of Man'' = Some ''Isle Of Man''
   \<and> slug_to_country ''england'' = Some ''United Kingdom''
   \<and> slug_to_country ''United Kingdom'' = Some ''United Kingdom''"
proof -
  have a: "resolve_country ''England'' = ''United Kingdom''" by code_simp
  have b: "slug_to_country ''isle-of-man'' = Some ''Isle Of Man''" by code_simp
  have e: "slug_to_country ''england'' = Some ''United Kingdom''" by code_simp
  have c: "(\<forall>c \<in> set ''isle-of-man''. (of_char c :: nat) < 128)
      \<and> ''isle-of-man'' \<noteq> ''bosnia-herzegovina'' \<and> ''isle-of-man'' \<noteq> ''dr-congo''"
    by simp
  have d: "''england'' \<noteq> ''bosnia-herzegovina'' \<and> ''england'' \<noteq> ''dr-congo''" by simp
  note t1 = canonicalizers_idempotent [of "''England''" "''isle-of-man''" "''Isle Of Man''"]
  note t2 = canonicalizers_idempotent [of "''England''" "''england''" "''United Kingdom''"]
  from t1 have r: "resolve_country (resolve_country ''England'') = resolve_country ''England''"
    by blast
  from t1 b c have i: "slug_to_country ''Isle Of Man'' = Some ''Isle Of Man''" by blast
  from t2 e d have u: "slug_to_country ''United Kingdom'' = Some ''United Kingdom''" by blast
  from c have l: "list_all (\<lambda>c. (of_char c :: nat) < 128) ''isle-of-man''"
    unfolding list_all_iff by blast
  from a b c e r i u l show ?thesis by blast
qed

text \<open>
  Applied to its own output for "bosnia-herzegovina", \<open>slug_to_country\<close> title-cases
  the "and" of the canonical name.
\<close>

theorem slug_to_country_not_idempotent_counterexample:
  "slug_to_country ''bosnia-herzegovina'' = Some ''Bosnia and Herzegovina''
   \<and> slug_to_country ''Bosnia and Herzegovina'' = Some ''Bosnia And Herzegovina''
   \<and> ''Bosnia And Herzegovina'' \<noteq> ''Bosnia and Herzegovina''"
  by code_simp

lemma collect_fold_length:
  "length (foldl (\<lambda>results idx. results[idx := Some (f idx)]) init order) = length init"
  by (induction order arbitrary: init) auto

lemma collect_fold_nth:
  "i < length init \<Longrightarrow>
   foldl (\<lambda>results idx. results[idx := Some (f idx)]) init order ! i
     = (if i \<in> set order then Some (f i) else init ! i)"
proof (induction order arbitrary: init)
  case Nil
  then show ?case by simp
next
  case (Cons idx order)
  then show ?case by (auto simp: nth_list_update)
qed

lemma collect_results_length: "length (collect_results order f n) = n"
  by (simp add: collect_results_def collect_fold_length)

lemma collect_results_nth:
  assumes "completion_of n order" and "i < n"
  shows "collect_results order f n ! i = Some (f i)"
  using assms by (simp add: collect_results_def collect_fold_nth completion_of_def)

lemma collect_results_eq:
  assumes "completion_of n order"
  shows "collect_results order f n = map (\<lambda>i. Some (f i)) [0..<n]"
  by (rule nth_equalityI) (simp_all add: collect_results_length collect_results_nth [OF assms])

lemma apply_verification_results_map:
  assumes "\<And>i. i < length transformed \<Longrightarrow> results ! i = Some (g i)"
  shows "apply_verification_results results transformed =
         map (\<lambda>(i, (country, rec)). (country, apply_verification (Some (g i)) rec))
           (enumerate 0 transformed)"
  unfolding apply_verification_results_def
  by (rule map_cong) (auto simp: in_set_enumerate_eq assms)

lemma apply_iframe_results_map:
  assumes "\<And>i. i < length transformed \<Longrightarrow> results ! (k + i) = Some (g (k + i))"
  shows "apply_iframe_results k results transformed =
         Inr (map (\<lambda>(i, (country, rec)). (country, apply_iframe_result (g i) rec))
           (enumerate k transformed))"
  using assms
proof (induction transformed arbitrary: k)
  case Nil
  then show ?case by simp
next
  case (Cons a transformed)
  obtain country rec where a: "a = (country, rec)" by (cases a)
  from Cons.prems [of 0] have h: "results ! k = Some (g k)" by simp
  have "\<And>i. i < length transformed \<Longrightarrow> results ! (Suc k + i) = Some (g (Suc k + i))"
    using Cons.prems [of "Suc i" for i] by simp
  then have "apply_iframe_results (Suc k) results transformed =
         Inr (map (\<lambda>(i, (country, rec)). (country, apply_iframe_result (g i) rec))
           (enumerate (Suc k) transformed))" by (rule Cons.IH)
  with a h show ?case by simp
qed

lemma verify_step_eq:
  assumes "completion_of (length transformed) order"
  shows "verify_step responses order transformed =
         map (\<lambda>(i, (country, rec)).
                (country, apply_verification (Some (verify_url (response_of responses i))) rec))
           (enumerate 0 transformed)"
  unfolding verify_step_def verify_batch_def
  by (rule apply_verification_results_map) (rule collect_results_nth [OF assms])

lemma extract_step_eq:
  assumes "completion_of (length pending) order"
  shows "extract_step html_unescape responses order pending =
         Inr (map (\<lambda>(i, (country, rec)).
                (country, apply_iframe_result
                   (fetch_iframe_url html_unescape (response_of responses i)) rec))
           (enumerate 0 pending))"
  unfolding extract_step_def fetch_batch_def
  by (rule apply_iframe_results_map) (simp add: collect_results_nth [OF assms])

text \<open>
  C2, as the code has it. Whatever the order in which the workers complete, the records after the pool's
  step are fixed by the responses alone. In \<open>merge_webcams\<close> a record whose request is
  answered with status 200 gets \<open>verified = True\<close> and radius 10, any other gets
  \<open>verified = False\<close> and radius 200, and the URL is not touched. In \<open>merge_webcamtaxi\<close>
  a record whose page yields an iframe source that is non-empty once unescaped gets that
  source as its URL, \<open>verified = True\<close> and radius 10, any other gets the fallback URL,
  \<open>verified = False\<close> and radius 200: an embed that is found but whose source unescapes to
  the empty string is treated as a failure. A request succeeds only on status 200 (and,
  for the extraction, when the pattern finds an iframe); a non-200 status, a timeout and
  any other exception all give the failure result.
\<close>

theorem worker_outcomes_fixed_by_responses:
  assumes "completion_of (length transformed) order"
    and "completion_of (length pending) order'"
  shows
    "verify_step responses order transformed =
       map (\<lambda>(i, (country, rec)).
              (country,
               if verify_url (response_of responses i)
               then rec\<lparr>verified := Some True, radius := Some 10\<rparr>
               else rec\<lparr>verified := Some False, radius := Some 200\<rparr>))
         (enumerate 0 transformed)
     \<and> extract_step html_unescape responses' order' pending =
       Inr (map (\<lambda>(i, (country, rec)).
              (country,
               webcam.truncate
                 (if snd (fetch_iframe_url html_unescape (response_of responses' i))
                     \<and> truthy_str (fst (fetch_iframe_url html_unescape (response_of responses' i)))
                  then rec\<lparr>url := fst (fetch_iframe_url html_unescape (response_of responses' i)),
                           verified := Some True, radius := Some 10\<rparr>
                  else rec\<lparr>url := Some (fallback_url rec), verified := Some False,
                           radius := Some 200\<rparr>)))
         (enumerate 0 pending))
     \<and> (verify_url outcome \<longleftrightarrow> (\<exists>body. outcome = Responded 200 body))
     \<and> (snd (fetch_iframe_url html_unescape outcome)
          \<longleftrightarrow> (\<exists>body. outcome = Responded 200 body \<and> find_iframe_src body \<noteq> None))
     \<and> (\<not> snd (fetch_iframe_url html_unescape outcome)
          \<longrightarrow> fetch_iframe_url html_unescape outcome = (None, False))"
proof (intro conjI)
  show "verify_step responses order transformed =
       map (\<lambda>(i, (country, rec)).
              (country,
               if verify_url (response_of responses i)
               then rec\<lparr>verified := Some True, radius := Some 10\<rparr>
               else rec\<lparr>verified := Some False, radius := Some 200\<rparr>))
         (enumerate 0 transformed)"
    unfolding verify_step_eq [OF assms(1)]
    by (rule map_cong)
       (auto simp: apply_verification_def VERIFIED_RADIUS_def UNVERIFIED_RADIUS_def)
  show "extract_step html_unescape responses' order' pending =
       Inr (map (\<lambda>(i, (country, rec)).
              (country,
               webcam.truncate
                 (if snd (fetch_iframe_url html_unescape (response_of responses' i))
                     \<and> truthy_str (fst (fetch_iframe_url html_unescape (response_of responses' i)))
                  then rec\<lparr>url := fst (fetch_iframe_url html_unescape (response_of responses' i)),
                           verified := Some True, radius := Some 10\<rparr>
                  else rec\<lparr>url := Some (fallback_url rec), verified := Some False,
                           radius := Some 200\<rparr>)))
         (enumerate 0 pending))"
    unfolding extract_step_eq [OF assms(2)]
    by (simp add: apply_iframe_result_def case_prod_beta VERIFIED_RADIUS_def UNVERIFIED_RADIUS_def)
  show "verify_url outcome \<longleftrightarrow> (\<exists>body. outcome = Responded 200 body)"
    by (cases outcome) (auto simp: verify_url_def)
  show "snd (fetch_iframe_url html_unescape outcome)
          \<longleftrightarrow> (\<exists>body. outcome = Responded 200 body \<and> find_iframe_src body \<noteq> None)"
    by (cases outcome) (auto simp: fetch_iframe_url_def split: option.splits)
  show "\<not> snd (fetch_iframe_url html_unescape outcome)
          \<longrightarrow> fetch_iframe_url html_unescape outcome = (None, False)"
    by (cases outcome) (auto simp: fetch_iframe_url_def split: option.splits)
qed

theorem worker_outcomes_fixed_by_responses_witness:
  \<open>completion_of 3 [2, 0, 1] \<and> completion_of 2 [1, 0]
   \<and> verify_step [Responded 200 [], Timed_out, Responded 404 []] [2, 0, 1]
        [(''A'', \<lparr>title = Some ''a'', subtitle = None, url = Some ''u0'', mode = Some ''automatic'',
             radius = None, latitude = None, longitude = None, verified = None,
             source = Some ''EW'', subregion = None\<rparr>),
         (''B'', \<lparr>title = Some ''b'', subtitle = None, url = Some ''u1'', mode = Some ''automatic'',
             radius = None, latitude = None, longitude = None, verified = None,
             source = Some ''EW'', subregion = None\<rparr>),
         (''A'', \<lparr>title = Some ''c'', subtitle = None, url = Some ''u2'', mode = Some ''automatic'',
             radius = None, latitude = None, longitude = None, verified = None,
             source = Some ''EW'', subregion = None\<rparr>)]
      = [(''A'', \<lparr>title = Some ''a'', subtitle = None, url = Some ''u0'', mode = Some ''automatic'',
             radius = Some 10, latitude = None, longitude = None, verified = Some True,
             source = Some ''EW'', subregion = None\<rparr>),
         (''B'', \<lparr>title = Some ''b'', subtitle = None, url = Some ''u1'', mode = Some ''automatic'',
             radius = Some 200, latitude = None, longitude = None, verified = Some False,
             source = Some ''EW'', subregion = None\<rparr>),
         (''A'', \<lparr>title = Some ''c'', subtitle = None, url = Some ''u2'', mode = Some ''automatic'',
             radius = Some 200, latitude = None, longitude = None, verified = Some False,
             source = Some ''EW'', subregion = None\<rparr>)]
   \<and> extract_step id [Responded 200 ''<p>no embed</p>'', Responded 200 ''<iframe src="e/1">''] [1, 0]
        [(''A'', \<lparr>title = Some ''a'', subtitle = None, url = None, mode = Some ''automatic'',
             radius = None, latitude = None, longitude = None, verified = None,
             source = Some ''WCT'', subregion = None, page_url = ''p0'', fallback_url = ''f0''\<rparr>),
         (''B'', \<lparr>title = Some ''b'', subtitle = None, url = None, mode = Some ''automatic'',
             radius = None, latitude = None, longitude = None, verified = None,
             source = Some ''WCT'', subregion = None, page_url = ''p1'', fallback_url = ''f1''\<rparr>)]
      = Inr [(''A'', \<lparr>title = Some ''a'', subtitle = None, url = Some ''f0'', mode = Some ''automatic'',
             radius = Some 200, latitude = None, longitude = None, verified = Some False,
             source = Some ''WCT'', subregion = None\<rparr>),
         (''B'', \<lparr>title = Some ''b'', subtitle = None, url = Some ''e/1'', mode = Some ''automatic'',
             radius = Some 10, latitude = None, longitude = None, verified = Some True,
             source = Some ''WCT'', subregion = None\<rparr>)]\<close>
proof -
  have o1: "completion_of 3 [2, 0, 1]" by code_simp
  have o2: "completion_of 2 [1, 0]" by code_simp
  have f0: "fetch_iframe_url id (Responded 200 ''<p>no embed</p>'') = (None, False)"
    by code_simp
  have f1: \<open>fetch_iframe_url id (Responded 200 ''<iframe src="e/1">'') = (Some ''e/1'', True)\<close>
    by code_simp
  have l1: "completion_of (length [a, b, c]) [2, 0, 1]" for a b c :: "string \<times> webcam"
    using o1 by (simp add: numeral_3_eq_3)
  have l2: "completion_of (length [a, b]) [1, 0]" for a b :: "string \<times> wct_pending"
    using o2 by (simp add: numeral_2_eq_2)
  note t = worker_outcomes_fixed_by_responses [OF l1 l2, where html_unescape = id]
  show ?thesis
  proof (intro conjI)
    show "completion_of 3 [2, 0, 1]" by (rule o1)
    show "completion_of 2 [1, 0]" by (rule o2)
  next
    show "verify_step [Responded 200 [], Timed_out, Responded 404 []] [2, 0, 1]
        [(''A'', \<lparr>title = Some ''a'', subtitle = None, url = Some ''u0'', mode = Some ''automatic'',
             radius = None, latitude = None, longitude = None, verified = None,
             source = Some ''EW'', subregion = None\<rparr>),
         (''B'', \<lparr>title = Some ''b'', subtitle = None, url = Some ''u1'', mode = Some ''automatic'',
             radius = None, latitude = None, longitude = None, verified = None,
             source = Some ''EW'', subregion = None\<rparr>),
         (''A'', \<lparr>title = Some ''c'', subtitle = None, url = Some ''u2'', mode = Some ''automatic'',
             radius = None, latitude = None, longitude = None, verified = None,
             source = Some ''EW'', subregion = None\<rparr>)]
      = [(''A'', \<lparr>title = Some ''a'', subtitle = None, url = Some ''u0'', mode = Some ''automatic'',
             radius = Some 10, latitude = None, longitude = None, verified = Some True,
             source = Some ''EW'', subregion = None\<rparr>),
         (''B'', \<lparr>title = Some ''b'', subtitle = None, url = Some ''u1'', mode = Some ''automatic'',
             radius = Some 200, latitude = None, longitude = None, verified = Some False,
             source = Some ''EW'', subregion = None\<rparr>),
         (''A'', \<lparr>title = Some ''c'', subtitle = None, url = Some ''u2'', mode = Some ''automatic'',
             radius = Some 200, latitude = None, longitude = None, verified = Some False,
             source = Some ''EW'', subregion = None\<rparr>)]"
      by (subst t [THEN conjunct1]) code_simp
  next
    have r0: "response_of [Responded 200 ''<p>no embed</p>'', Responded 200 page] 0
        = Responded 200 ''<p>no embed</p>''" for page
      by (simp add: response_of_def)
    have r1: "response_of [Responded 200 ''<p>no embed</p>'', Responded 200 page] (Suc 0)
        = Responded 200 page" for page
      by (simp add: response_of_def)
    show \<open>extract_step id [Responded 200 ''<p>no embed</p>'', Responded 200 ''<iframe src="e/1">''] [1, 0]
        [(''A'', \<lparr>title = Some ''a'', subtitle = None, url = None, mode = Some ''automatic'',
             radius = None, latitude = None, longitude = None, verified = None,
             source = Some ''WCT'', subregion = None, page_url = ''p0'', fallback_url = ''f0''\<rparr>),
         (''B'', \<lparr>title = Some ''b'', subtitle = None, url = None, mode = Some ''automatic'',
             radius = None, latitude = None, longitude = None, verified = None,
             source = Some ''WCT'', subregion = None, page_url = ''p1'', fallback_url = ''f1''\<rparr>)]
      = Inr [(''A'', \<lparr>title = Some ''a'', subtitle = None, url = Some ''f0'', mode = Some ''automatic'',
             radius = Some 200, latitude = None, longitude = None, verified = Some False,
             source = Some ''WCT'', subregion = None\<rparr>),
         (''B'', \<lparr>title = Some ''b'', subtitle = None, url = Some ''e/1'', mode = Some ''automatic'',
             radius = Some 10, latitude = None, longitude = None, verified = Some True,
             source = Some ''WCT'', subregion = None\<rparr>)]\<close>
      by (subst t [THEN conjunct2, THEN conjunct1])
         (simp add: r0 r1 f0 f1 truthy_str_def webcam.defs wct_pending.defs)
  qed
qed

text \<open>
  A page with status 200 whose iframe is found, with the source \<open>&#1;\<close>: the fetch returns
  the empty string with \<open>success = True\<close>, the test \<open>success and iframe_url\<close> fails, and the
  record ends with the fallback URL, \<open>verified = False\<close> and radius 200.
\<close>

theorem located_embed_unverified_counterexample:
  \<open>find_iframe_src ''<iframe src="&#1;">'' = Some ''&#1;''
   \<and> fetch_iframe_url html_unescape_charref_1 (Responded 200 ''<iframe src="&#1;">'')
       = (Some [], True)
   \<and> extract_step html_unescape_charref_1 [Responded 200 ''<iframe src="&#1;">''] [0]
        [(''A'', \<lparr>title = Some ''a'', subtitle = None, url = None, mode = Some ''automatic'',
             radius = None, latitude = None, longitude = None, verified = None,
             source = Some ''WCT'', subregion = None, page_url = ''p0'', fallback_url = ''f0''\<rparr>)]
      = Inr [(''A'', \<lparr>title = Some ''a'', subtitle = None, url = Some ''f0'',
             mode = Some ''automatic'', radius = Some 200, latitude = None, longitude = None,
             verified = Some False, source = Some ''WCT'', subregion = None\<rparr>)]\<close>
  (is "?m \<and> ?f \<and> ?e")
proof -
  have m: ?m by code_simp
  have f: ?f by code_simp
  have r: \<open>response_of [Responded 200 ''<iframe src="&#1;">''] 0
      = Responded 200 ''<iframe src="&#1;">''\<close>
    by (simp add: response_of_def)
  have c: "collect_results [0] g (Suc 0) = [Some (g 0)]" for g :: "nat \<Rightarrow> string option \<times> bool"
    by (simp add: collect_results_def)
  have e: ?e
    by (simp add: extract_step_def fetch_batch_def c r f apply_iframe_result_def truthy_str_def
        webcam.defs wct_pending.defs VERIFIED_RADIUS_def UNVERIFIED_RADIUS_def)
  from m f e show ?thesis by blast
qed

lemma map_of_dict_append:
  "map_of (dict_append d country rec) =
     (map_of d)(country \<mapsto> (case map_of d country of None \<Rightarrow> [] | Some recs \<Rightarrow> recs) @ [rec])"
  by (induction d country rec rule: dict_append.induct) (auto simp: fun_eq_iff)

lemma keys_dict_append:
  "map fst (dict_append d country rec) =
     (if country \<in> fst ` set d then map fst d else map fst d @ [country])"
  by (induction d country rec rule: dict_append.induct) (auto simp: image_iff)

lemma distinct_dict_append:
  "distinct (map fst d) \<Longrightarrow> distinct (map fst (dict_append d country rec))"
  by (simp add: keys_dict_append)

lemma distinct_merge_into:
  "distinct (map fst d) \<Longrightarrow> distinct (map fst (merge_into d transformed))"
  unfolding merge_into_def
  by (induction transformed arbitrary: d) (auto simp: distinct_dict_append)

lemma map_of_merge_into:
  "map_of (merge_into d transformed) country =
     (if map_of d country = None \<and> country \<notin> fst ` set transformed then None
      else Some ((case map_of d country of None \<Rightarrow> [] | Some recs \<Rightarrow> recs)
                 @ map snd (filter (\<lambda>(c, rec). c = country) transformed)))"
  unfolding merge_into_def
proof (induction transformed arbitrary: d)
  case Nil
  then show ?case by (auto split: option.splits)
next
  case (Cons a transformed)
  obtain c rec where a: "a = (c, rec)" by (cases a)
  show ?case
    unfolding a foldl_Cons prod.case Cons.IH map_of_dict_append
    by (auto split: option.splits simp: image_iff)
qed

lemma map_of_sorted_items:
  assumes "distinct (map fst d)"
  shows "map_of (sorted_items d) = map_of d"
proof -
  have "distinct (map fst (sorted_items d))"
    unfolding sorted_items_def
    using assms by (metis distinct_map distinct_sort set_sort inj_on_cong)
  moreover have "set (sorted_items d) = set d" by (simp add: sorted_items_def)
  ultimately show ?thesis using assms by (simp add: map_of_inject_set)
qed

text \<open>
  C8. Merging is append-only per country. For a country that has a bucket before the merge
  (the dict has each key once), the bucket after the merge, also after the sort of the
  keys, is the old bucket followed by the new records of that country in their order. This
  holds for the merge loop itself and for both scripts; in \<open>merge_webcams\<close> the old
  records are the ones step 2 has stamped with their source.
\<close>

theorem merge_is_append_only:
  assumes "distinct (map fst combined)"
    and "map_of combined country = Some before"
  shows
    "map_of (sorted_items (merge_into combined transformed)) country
       = Some (before @ map snd (filter (\<lambda>(c, rec). c = country) transformed))
     \<and> (merge_webcamtaxi_main html_unescape responses order combined pending = Inr after
          \<longrightarrow> (\<exists>done. extract_step html_unescape responses order pending = Inr done
                \<and> map_of after country
                    = Some (before @ map snd (filter (\<lambda>(c, rec). c = country) done))))
     \<and> map_of (merge_webcams_main responses order combined transformed) country
       = Some (map stamp_slw before
               @ map snd (filter (\<lambda>(c, rec). c = country)
                           (verify_step responses order transformed)))"
proof (intro conjI impI)
  have m: "map_of (sorted_items (merge_into combined new)) country
       = Some (before @ map snd (filter (\<lambda>(c, rec). c = country) new))" for new
    using assms by (simp add: map_of_sorted_items distinct_merge_into map_of_merge_into)
  show "map_of (sorted_items (merge_into combined transformed)) country
       = Some (before @ map snd (filter (\<lambda>(c, rec). c = country) transformed))"
    by (rule m)
  show "\<exists>done. extract_step html_unescape responses order pending = Inr done
          \<and> map_of after country = Some (before @ map snd (filter (\<lambda>(c, rec). c = country) done))"
    if "merge_webcamtaxi_main html_unescape responses order combined pending = Inr after"
    using that m by (auto simp: merge_webcamtaxi_main_def split: sum.splits)
  let ?wl = "map (\<lambda>(country, records). (country, map stamp_slw records)) combined"
  have k: "map fst ?wl = map fst combined" by (induction combined) auto
  have l: "map_of ?wl country = Some (map stamp_slw before)"
    using assms(2) by (simp add: map_of_map)
  from assms(1) have d: "distinct (map fst ?wl)" unfolding k .
  show "map_of (merge_webcams_main responses order combined transformed) country
       = Some (map stamp_slw before
               @ map snd (filter (\<lambda>(c, rec). c = country)
                           (verify_step responses order transformed)))"
    unfolding merge_webcams_main_def Let_def
    using d l by (simp add: map_of_sorted_items distinct_merge_into map_of_merge_into)
qed

theorem merge_is_append_only_witness:
  "distinct (map fst
      [(''Norway'', [\<lparr>title = Some ''a'', subtitle = None, url = Some ''u0'', mode = Some ''manual'',
          radius = Some 2000, latitude = None, longitude = None, verified = Some False,
          source = Some ''SLW'', subregion = None\<rparr>]),
       (''Chile'', [])])
   \<and> map_of
      [(''Norway'', [\<lparr>title = Some ''a'', subtitle = None, url = Some ''u0'', mode = Some ''manual'',
          radius = Some 2000, latitude = None, longitude = None, verified = Some False,
          source = Some ''SLW'', subregion = None\<rparr>]),
       (''Chile'', [])] ''Norway''
     = Some [\<lparr>title = Some ''a'', subtitle = None, url = Some ''u0'', mode = Some ''manual'',
          radius = Some 2000, latitude = None, longitude = None, verified = Some False,
          source = Some ''SLW'', subregion = None\<rparr>]
   \<and> map_of (sorted_items (merge_into
      [(''Norway'', [\<lparr>title = Some ''a'', subtitle = None, url = Some ''u0'', mode = Some ''manual'',
          radius = Some 2000, latitude = None, longitude = None, verified = Some False,
          source = Some ''SLW'', subregion = None\<rparr>]),
       (''Chile'', [])]
      [(''Norway'', \<lparr>title = Some ''b'', subtitle = None, url = Some ''u1'', mode = Some ''automatic'',
          radius = Some 10, latitude = None, longitude = None, verified = Some True,
          source = Some ''WCT'', subregion = None\<rparr>),
       (''Austria'', \<lparr>title = Some ''c'', subtitle = None, url = Some ''u2'', mode = Some ''automatic'',
          radius = Some 200, latitude = None, longitude = None, verified = Some False,
          source = Some ''WCT'', subregion = None\<rparr>)])) ''Norway''
     = Some [\<lparr>title = Some ''a'', subtitle = None, url = Some ''u0'', mode = Some ''manual'',
          radius = Some 2000, latitude = None, longitude = None, verified = Some False,
          source = Some ''SLW'', subregion = None\<rparr>,
        \<lparr>title = Some ''b'', subtitle = None, url = Some ''u1'', mode = Some ''automatic'',
          radius = Some 10, latitude = None, longitude = None, verified = Some True,
          source = Some ''WCT'', subregion = None\<rparr>]
   \<and> map fst (sorted_items (merge_into
      [(''Norway'', [\<lparr>title = Some ''a'', subtitle = None, url = Some ''u0'', mode = Some ''manual'',
          radius = Some 2000, latitude = None, longitude = None, verified = Some False,
          source = Some ''SLW'', subregion = None\<rparr>]),
       (''Chile'', [])]
      [(''Norway'', \<lparr>title = Some ''b'', subtitle = None, url = Some ''u1'', mode = Some ''automatic'',
          radius = Some 10, latitude = None, longitude = None, verified = Some True,
          source = Some ''WCT'', subregion = None\<rparr>),
       (''Austria'', \<lparr>title = Some ''c'', subtitle = None, url = Some ''u2'', mode = Some ''automatic'',
          radius = Some 200, latitude = None, longitude = None, verified = Some False,
          source = Some ''WCT'', subregion = None\<rparr>)]))
     = [''Austria'', ''Chile'', ''Norway'']"
  (is "?d \<and> ?m \<and> ?a \<and> ?k")
proof -
  have d: ?d by simp
  have m: ?m by simp
  have k: ?k by code_simp
  from merge_is_append_only [OF d m, THEN conjunct1] have ?a by simp
  with d m k show ?thesis by blast
qed

lemma classify_record_radius:
  "0 < snd (classify_record h1 h2) \<and> snd (classify_record h1 h2) \<le> 2500"
  using classify_record_cases [of h1 h2] by auto

lemma estimate_radius_cases:
  "estimate_radius_for_manual h1 h2 \<in> {200, 2500, 500, 1500}"
  by (simp add: estimate_radius_for_manual_def Let_def)

lemma apply_verification_radius:
  "radius (apply_verification ok rec) = Some 10 \<or> radius (apply_verification ok rec) = Some 200"
  by (simp add: apply_verification_def VERIFIED_RADIUS_def UNVERIFIED_RADIUS_def)

lemma apply_iframe_result_radius:
  "radius (apply_iframe_result result rec) = Some 10
   \<or> radius (apply_iframe_result result rec) = Some 200"
  by (simp add: apply_iframe_result_def case_prod_beta webcam.defs
      VERIFIED_RADIUS_def UNVERIFIED_RADIUS_def)

lemma apply_iframe_results_radius:
  "apply_iframe_results i results pending = Inr done \<Longrightarrow> (country, rec) \<in> set done
   \<Longrightarrow> radius rec = Some 10 \<or> radius rec = Some 200"
proof (induction pending arbitrary: i "done")
  case Nil
  then show ?case by simp
next
  case (Cons a pending)
  obtain c p where a: "a = (c, p)" by (cases a)
  from Cons.prems(1) a obtain result rest where
    r: "results ! i = Some result"
    and t: "apply_iframe_results (Suc i) results pending = Inr rest"
    and d: "done = (c, apply_iframe_result result p) # rest"
    by (auto split: option.splits sum.splits)
  from Cons.prems(2) d consider "rec = apply_iframe_result result p" | "(country, rec) \<in> set rest"
    by auto
  then show ?case
  proof cases
    case 1
    then show ?thesis using apply_iframe_result_radius by blast
  next
    case 2
    with t show ?thesis by (rule Cons.IH)
  qed
qed

lemma classify_one_radius:
  assumes "classify_one record = Inr (Some new_record)"
    and "\<not> (5 \<le> length record \<and> record ! 3 = JStr ''manual'')"
  shows "\<exists>r. last new_record = JInt r \<and> 0 < r \<and> r \<le> 2500
            \<and> (3 \<le> length record \<longrightarrow> length new_record = 5 \<and> new_record ! 4 = JInt r)"
proof (cases "field_or_empty record 0")
  case (JStr h1)
  show ?thesis
  proof (cases "4 \<le> length record \<and> record ! 3 = JStr ''manual''")
    case True
    with assms(2) have len: "length record = 4" by auto
    with True JStr assms(1) obtain h2 where
      "new_record = take 4 record @ [JInt (estimate_radius_for_manual h1 h2)]"
      by (auto simp: classify_one_def split: jval.splits if_splits)
    with len estimate_radius_cases [of h1 h2] show ?thesis
      by (auto simp: nth_append)
  next
    case False
    with JStr assms(1) obtain h2 where
      "new_record = take 3 record
         @ [JStr (fst (classify_record h1 h2)), JInt (snd (classify_record h1 h2))]"
      by (auto simp: classify_one_def Let_def case_prod_beta split: jval.splits if_splits)
    with classify_record_radius [of h1 h2] show ?thesis
      by (auto simp: nth_append)
  qed
qed (use assms in \<open>auto simp: classify_one_def\<close>)

lemma classify_one_manual_unchanged:
  assumes "classify_one record = Inr (Some new_record)"
    and "5 \<le> length record" and "record ! 3 = JStr ''manual''"
  shows "new_record = record"
  using assms
  by (auto simp: classify_one_def split: jval.splits if_splits)

text \<open>
  C7, as the code has it. Every radius that \<open>classify_record\<close>, \<open>estimate_radius_for_manual\<close> or a worker
  assigns is positive and at most 2500, and the record leaves with it: the classification
  loop appends it as the last field (the fifth, for a record that has title, subtitle and
  URL) of every record it classifies or estimates, which is every record it keeps except
  one already tagged manual that has a fifth field: such a record is passed on as it is,
  whatever its fifth field holds. The verification step sets the radius on every record of
  the batch; the extraction step returns and sets it on every record.
\<close>

theorem assigned_radius_in_range:
  "0 < snd (classify_record h1 h2) \<and> snd (classify_record h1 h2) \<le> 2500
   \<and> 0 < estimate_radius_for_manual h1 h2 \<and> estimate_radius_for_manual h1 h2 \<le> 2500
   \<and> (classify_one record = Inr (Some new_record)
        \<and> \<not> (5 \<le> length record \<and> record ! 3 = JStr ''manual'')
      \<longrightarrow> (\<exists>r. last new_record = JInt r \<and> 0 < r \<and> r \<le> 2500
              \<and> (3 \<le> length record \<longrightarrow> length new_record = 5 \<and> new_record ! 4 = JInt r)))
   \<and> (classify_one record = Inr (Some new_record)
        \<and> 5 \<le> length record \<and> record ! 3 = JStr ''manual''
      \<longrightarrow> new_record = record)
   \<and> (\<forall>(country, rec) \<in> set (verify_step responses order transformed).
         \<exists>r. radius rec = Some r \<and> 0 < r \<and> r \<le> 2500)
   \<and> (completion_of (length pending) order'
      \<longrightarrow> (\<exists>done. extract_step html_unescape responses' order' pending = Inr done
              \<and> length done = length pending
              \<and> (\<forall>(country, rec) \<in> set done. \<exists>r. radius rec = Some r \<and> 0 < r \<and> r \<le> 2500)))"
proof (intro conjI impI)
  show "0 < snd (classify_record h1 h2)" "snd (classify_record h1 h2) \<le> 2500"
    using classify_record_radius by blast+
  show "0 < estimate_radius_for_manual h1 h2" "estimate_radius_for_manual h1 h2 \<le> 2500"
    using estimate_radius_cases [of h1 h2] by auto
  show "\<exists>r. last new_record = JInt r \<and> 0 < r \<and> r \<le> 2500
              \<and> (3 \<le> length record \<longrightarrow> length new_record = 5 \<and> new_record ! 4 = JInt r)"
    if "classify_one record = Inr (Some new_record)
        \<and> \<not> (5 \<le> length record \<and> record ! 3 = JStr ''manual'')"
    using that classify_one_radius by blast
  show "new_record = record"
    if "classify_one record = Inr (Some new_record)
        \<and> 5 \<le> length record \<and> record ! 3 = JStr ''manual''"
    using that classify_one_manual_unchanged by blast
  show "\<forall>(country, rec) \<in> set (verify_step responses order transformed).
         \<exists>r. radius rec = Some r \<and> 0 < r \<and> r \<le> 2500"
    using apply_verification_radius
    by (fastforce simp: verify_step_def apply_verification_results_def)
  show "\<exists>done. extract_step html_unescape responses' order' pending = Inr done
              \<and> length done = length pending
              \<and> (\<forall>(country, rec) \<in> set done. \<exists>r. radius rec = Some r \<and> 0 < r \<and> r \<le> 2500)"
    if c: "completion_of (length pending) order'"
  proof -
    from extract_step_eq [OF c] obtain "done" where
      d: "extract_step html_unescape responses' order' pending = Inr done"
      and l: "length done = length pending" by simp
    have "\<exists>r. radius rec = Some r \<and> 0 < r \<and> r \<le> 2500" if "(country, rec) \<in> set done"
      for country rec
      using apply_iframe_results_radius [OF d [unfolded extract_step_def] that] by auto
    with d l show ?thesis by blast
  qed
qed

theorem assigned_radius_in_range_witness:
  "classify_one [JStr ''Oslo Beach'', JStr ''Oslo'', JStr ''u'']
     = Inr (Some [JStr ''Oslo Beach'', JStr ''Oslo'', JStr ''u'', JStr ''automatic'', JInt 200])
   \<and> \<not> (5 \<le> length [JStr ''Oslo Beach'', JStr ''Oslo'', JStr ''u'']
          \<and> [JStr ''Oslo Beach'', JStr ''Oslo'', JStr ''u''] ! 3 = JStr ''manual'')
   \<and> (\<exists>r. [JStr ''Oslo Beach'', JStr ''Oslo'', JStr ''u'', JStr ''automatic'', JInt 200] ! 4 = JInt r
          \<and> 0 < r \<and> r \<le> 2500)
   \<and> (''A'', \<lparr>title = Some ''a'', subtitle = None, url = Some ''u0'', mode = Some ''automatic'',
             radius = Some 200, latitude = None, longitude = None, verified = Some False,
             source = Some ''EW'', subregion = None\<rparr>)
       \<in> set (verify_step [Timed_out] [0]
             [(''A'', \<lparr>title = Some ''a'', subtitle = None, url = Some ''u0'',
                 mode = Some ''automatic'', radius = None, latitude = None, longitude = None,
                 verified = None, source = Some ''EW'', subregion = None\<rparr>)])
   \<and> (\<exists>r. radius \<lparr>title = Some ''a'', subtitle = None, url = Some ''u0'', mode = Some ''automatic'',
             radius = Some 200, latitude = None, longitude = None, verified = Some False,
             source = Some ''EW'', subregion = None\<rparr> = Some r \<and> 0 < r \<and> r \<le> 2500)
   \<and> completion_of (length [(''A'', \<lparr>title = Some ''a'', subtitle = None, url = None,
             mode = Some ''automatic'', radius = None, latitude = None, longitude = None,
             verified = None, source = Some ''WCT'', subregion = None,
             page_url = ''p0'', fallback_url = ''f0''\<rparr>)]) [0]
   \<and> (\<exists>done. extract_step id [Failed_request] [0]
          [(''A'', \<lparr>title = Some ''a'', subtitle = None, url = None,
             mode = Some ''automatic'', radius = None, latitude = None, longitude = None,
             verified = None, source = Some ''WCT'', subregion = None,
             page_url = ''p0'', fallback_url = ''f0''\<rparr>)] = Inr done
        \<and> length done = 1
        \<and> (\<forall>(country, rec) \<in> set done. \<exists>r. radius rec = Some r \<and> 0 < r \<and> r \<le> 2500))
   \<and> (classify_one [JStr ''Fjord view'', JStr ''Norway'', JStr ''u'', JStr ''manual'', JInt 500]
        = Inr (Some [JStr ''Fjord view'', JStr ''Norway'', JStr ''u'', JStr ''manual'', JInt 500])
      \<and> 5 \<le> length [JStr ''Fjord view'', JStr ''Norway'', JStr ''u'', JStr ''manual'', JInt 500]
      \<and> [JStr ''Fjord view'', JStr ''Norway'', JStr ''u'', JStr ''manual'', JInt 500] ! 3
          = JStr ''manual'')"
  (is "?c \<and> ?n \<and> ?r \<and> ?v \<and> ?vr \<and> ?o \<and> ?e \<and> ?m")
proof -
  note t' = assigned_radius_in_range [of "''Fjord view''" "''Norway''"
      "[JStr ''Fjord view'', JStr ''Norway'', JStr ''u'', JStr ''manual'', JInt 500]"
      "[JStr ''Fjord view'', JStr ''Norway'', JStr ''u'', JStr ''manual'', JInt 500]"]
  have m: ?m by code_simp
  from t' m have m': "[JStr ''Fjord view'', JStr ''Norway'', JStr ''u'', JStr ''manual'', JInt 500]
      = [JStr ''Fjord view'', JStr ''Norway'', JStr ''u'', JStr ''manual'', JInt 500]"
    by blast
  note t = assigned_radius_in_range [of "''Oslo Beach''" "''Oslo''"
      "[JStr ''Oslo Beach'', JStr ''Oslo'', JStr ''u'']"
      "[JStr ''Oslo Beach'', JStr ''Oslo'', JStr ''u'', JStr ''automatic'', JInt 200]"
      "[Timed_out]" "[0]"
      "[(''A'', \<lparr>title = Some ''a'', subtitle = None, url = Some ''u0'',
                 mode = Some ''automatic'', radius = None, latitude = None, longitude = None,
                 verified = None, source = Some ''EW'', subregion = None\<rparr>)]"
      "[(''A'', \<lparr>title = Some ''a'', subtitle = None, url = None,
             mode = Some ''automatic'', radius = None, latitude = None, longitude = None,
             verified = None, source = Some ''WCT'', subregion = None,
             page_url = ''p0'', fallback_url = ''f0''\<rparr>)]"
      "[0]" id "[Failed_request]"]
  have c: ?c by code_simp
  have n: ?n by simp
  have v: ?v by code_simp
  have o: ?o by code_simp
  from t c n have r: ?r by auto
  from t v have vr: ?vr by blast
  from t o have e: ?e by simp
  from c n r v vr o e m show ?thesis by blast
qed

text \<open>
  Two records already tagged manual that have a fifth field, one holding \<open>null\<close> and one
  holding 9999: the loop passes both on as they are.
\<close>

theorem manual_record_passes_unchanged_counterexample:
  "classify_main
     [(''Norway'',
       [[JStr ''Fjord cam'', JStr ''Norway'', JStr ''u1'', JStr ''manual'', JNull],
        [JStr ''Coast cam'', JStr ''Norway'', JStr ''u2'', JStr ''manual'', JInt 9999]])]
   = Inr
     [(''Norway'',
       [[JStr ''Fjord cam'', JStr ''Norway'', JStr ''u1'', JStr ''manual'', JNull],
        [JStr ''Coast cam'', JStr ''Norway'', JStr ''u2'', JStr ''manual'', JInt 9999]])]
   \<and> [JStr ''Fjord cam'', JStr ''Norway'', JStr ''u1'', JStr ''manual'', JNull] ! 4 = JNull
   \<and> [JStr ''Coast cam'', JStr ''Norway'', JStr ''u2'', JStr ''manual'', JInt 9999] ! 4
       = JInt 9999
   \<and> \<not> (9999 :: int) \<le> 2500"
  by code_simp

lemma viewport_is_area_corners:
  "ne \<noteq> [] \<Longrightarrow> sw \<noteq> [] \<Longrightarrow>
   viewport_is_area (Some \<lparr>northeast = Some ne, southwest = Some sw\<rparr>)
     = (\<bar>double_sub (corner_value ne ''lat'') (corner_value sw ''lat'')\<bar> > MAX_VIEWPORT_SPAN_DEG
        \<or> \<bar>double_sub (corner_value ne ''lng'') (corner_value sw ''lng'')\<bar>
            > MAX_VIEWPORT_SPAN_DEG)"
  by (simp add: viewport_is_area_def)

text \<open>
  C5, as the code has it. A result is an area exactly when the answer has a viewport with
  both corners and the latitude span or the longitude span, computed in double precision
  from the parsed corners, is strictly greater than the double nearest 0.02; a missing
  corner and a missing viewport give a point. This is the flag that \<open>geocode_query\<close>
  returns in both scripts.
\<close>

theorem area_iff_span_exceeds:
  "(viewport_is_area vp \<longleftrightarrow>
      (\<exists>v ne sw. vp = Some v \<and> northeast v = Some ne \<and> southwest v = Some sw
         \<and> ne \<noteq> [] \<and> sw \<noteq> []
         \<and> (\<bar>double_sub (round_to_double (get_or ne ''lat'' 0))
                        (round_to_double (get_or sw ''lat'' 0))\<bar> > round_to_double (2 / 100)
            \<or> \<bar>double_sub (round_to_double (get_or ne ''lng'' 0))
                          (round_to_double (get_or sw ''lng'' 0))\<bar> > round_to_double (2 / 100))))
   \<and> (skyline_geocode_query reply = Inr (Some result) \<or> smart_geocode_query reply = Some result
      \<longrightarrow> (\<exists>data. reply = Reply data \<and> candidates data \<noteq> []
            \<and> is_area result
                = viewport_is_area
                    (case hd (candidates data) of None \<Rightarrow> None | Some g \<Rightarrow> viewport g)))"
proof (intro conjI impI)
  show "viewport_is_area vp \<longleftrightarrow>
      (\<exists>v ne sw. vp = Some v \<and> northeast v = Some ne \<and> southwest v = Some sw
         \<and> ne \<noteq> [] \<and> sw \<noteq> []
         \<and> (\<bar>double_sub (round_to_double (get_or ne ''lat'' 0))
                        (round_to_double (get_or sw ''lat'' 0))\<bar> > round_to_double (2 / 100)
            \<or> \<bar>double_sub (round_to_double (get_or ne ''lng'' 0))
                          (round_to_double (get_or sw ''lng'' 0))\<bar> > round_to_double (2 / 100)))"
    by (auto simp: viewport_is_area_def corner_value_def MAX_VIEWPORT_SPAN_DEG_def Let_def
        split: option.splits)
  assume "skyline_geocode_query reply = Inr (Some result) \<or> smart_geocode_query reply = Some result"
  then obtain data where r: "reply = Reply data" and g: "geocode_data data = Some result"
    by (cases reply) (auto simp: skyline_geocode_query_def smart_geocode_query_def)
  from g have "candidates data \<noteq> []"
    by (auto simp: geocode_data_def split: if_splits)
  moreover from g have "is_area result
      = viewport_is_area (case hd (candidates data) of None \<Rightarrow> None | Some g \<Rightarrow> viewport g)"
    by (auto simp: geocode_data_def Let_def split: if_splits option.splits)
  ultimately show "\<exists>data. reply = Reply data \<and> candidates data \<noteq> []
            \<and> is_area result
                = viewport_is_area
                    (case hd (candidates data) of None \<Rightarrow> None | Some g \<Rightarrow> viewport g)"
    using r by blast
qed

theorem area_iff_span_exceeds_witness:
  "smart_geocode_query (Reply \<lparr>status = Some ''OK'', candidates =
      [Some \<lparr>location = Some [(''lat'', 1.005), (''lng'', 2.005)],
             viewport = Some \<lparr>northeast = Some [(''lat'', 1.01), (''lng'', 2.01)],
                               southwest = Some [(''lat'', 1), (''lng'', 2)]\<rparr>\<rparr>]\<rparr>)
     = Some \<lparr>lat = 1.005, lng = 2.005, is_area = False\<rparr>
   \<and> skyline_geocode_query (Reply \<lparr>status = Some ''OK'', candidates =
      [Some \<lparr>location = Some [(''lat'', 1.005), (''lng'', 2.005)],
             viewport = Some \<lparr>northeast = Some [(''lat'', 1.03), (''lng'', 2.01)],
                               southwest = Some [(''lat'', 1), (''lng'', 2)]\<rparr>\<rparr>]\<rparr>)
     = Inr (Some \<lparr>lat = 1.005, lng = 2.005, is_area = True\<rparr>)
   \<and> smart_geocode_query (Reply \<lparr>status = Some ''OK'', candidates =
      [Some \<lparr>location = Some [(''lat'', 1.005), (''lng'', 2.005)], viewport = None\<rparr>]\<rparr>)
     = Some \<lparr>lat = 1.005, lng = 2.005, is_area = False\<rparr>
   \<and> \<not> viewport_is_area (Some \<lparr>northeast = Some [(''lat'', 1.01), (''lng'', 2.01)],
                               southwest = Some [(''lat'', 1), (''lng'', 2)]\<rparr>)
   \<and> viewport_is_area (Some \<lparr>northeast = Some [(''lat'', 1.03), (''lng'', 2.01)],
                               southwest = Some [(''lat'', 1), (''lng'', 2)]\<rparr>)
   \<and> \<not> viewport_is_area None"
  (is "?a \<and> ?b \<and> ?c \<and> ?d \<and> ?e \<and> ?f")
proof -
  have p: "viewport_is_area (Some \<lparr>northeast = Some [(''lat'', 1.01), (''lng'', 2.01)],
                               southwest = Some [(''lat'', 1), (''lng'', 2)]\<rparr>) = False"
    by (subst viewport_is_area_corners) (simp, simp, code_simp)
  have q: "viewport_is_area (Some \<lparr>northeast = Some [(''lat'', 1.03), (''lng'', 2.01)],
                               southwest = Some [(''lat'', 1), (''lng'', 2)]\<rparr>) = True"
    by (subst viewport_is_area_corners) (simp, simp, code_simp)
  have n: "viewport_is_area None = False" by (simp add: viewport_is_area_def)
  from p have a: ?a by (simp add: smart_geocode_query_def geocode_data_def)
  from q have b: ?b by (simp add: skyline_geocode_query_def geocode_data_def)
  from n have c: ?c by (simp add: smart_geocode_query_def geocode_data_def)
  from area_iff_span_exceeds [THEN conjunct2, rule_format, OF disjI2, OF a] have d: ?d by simp
  from area_iff_span_exceeds [THEN conjunct2, rule_format, OF disjI1, OF b] have e: ?e by simp
  from area_iff_span_exceeds [THEN conjunct2, rule_format, OF disjI2, OF c] have f: ?f by simp
  from a b c d e f show ?thesis by blast
qed

text \<open>
  Corners whose latitudes, as written, are exactly 0.02 apart: the double nearest 1.02 is
  a little above 1.02, the subtraction of 1.0 is exact, and the span comes out above the
  double nearest 0.02. The result is an area.
\<close>

theorem boundary_span_is_area_counterexample:
  "smart_geocode_query (Reply \<lparr>status = Some ''OK'', candidates =
      [Some \<lparr>location = Some [(''lat'', 1.01), (''lng'', 2)],
             viewport = Some \<lparr>northeast = Some [(''lat'', 1.02), (''lng'', 2)],
                               southwest = Some [(''lat'', 1), (''lng'', 2)]\<rparr>\<rparr>]\<rparr>)
     = Some \<lparr>lat = 1.01, lng = 2, is_area = True\<rparr>
   \<and> \<not> \<bar>(1.02 :: rat) - 1\<bar> > 0.02 \<and> \<not> \<bar>(2 :: rat) - 2\<bar> > 0.02
   \<and> double_sub (round_to_double 1.02) (round_to_double 1) = 45035996273705 / 2 ^ 51
   \<and> round_to_double 0.02 = 5764607523034235 / 2 ^ 58"
proof -
  have v: "viewport_is_area (Some \<lparr>northeast = Some [(''lat'', 1.02), (''lng'', 2)],
                               southwest = Some [(''lat'', 1), (''lng'', 2)]\<rparr>) = True"
    by (subst viewport_is_area_corners) (simp, simp, code_simp)
  have s: "double_sub (round_to_double 1.02) (round_to_double 1) = 45035996273705 / 2 ^ 51"
    by code_simp
  have m: "round_to_double 0.02 = 5764607523034235 / 2 ^ 58" by code_simp
  have g: "smart_geocode_query (Reply \<lparr>status = Some ''OK'', candidates =
      [Some \<lparr>location = Some [(''lat'', 1.01), (''lng'', 2)],
             viewport = Some \<lparr>northeast = Some [(''lat'', 1.02), (''lng'', 2)],
                               southwest = Some [(''lat'', 1), (''lng'', 2)]\<rparr>\<rparr>]\<rparr>)
     = Some \<lparr>lat = 1.01, lng = 2, is_area = True\<rparr>"
    using v by (simp add: smart_geocode_query_def geocode_data_def)
  have d: "\<not> \<bar>(1.02 :: rat) - 1\<bar> > 0.02 \<and> \<not> \<bar>(2 :: rat) - 2\<bar> > 0.02" by simp
  from g d s m show ?thesis by blast
qed

lemma common_words_subset: "set (common_words h2_words seen ws) \<subseteq> set ws"
  by (induction ws arbitrary: seen) auto

lemma py_join_nonempty: "ws \<noteq> [] \<Longrightarrow> [] \<notin> set ws \<Longrightarrow> py_join sep ws \<noteq> []"
  by (induction sep ws rule: py_join.induct) auto

lemma extract_search_query_nonempty:
  assumes "extract_search_query h1 h2 = Some query"
  shows "query \<noteq> []"
proof -
  let ?common = "common_words (clean_words h2) [] (clean_words h1)"
  from assms have c: "?common \<noteq> []" and q: "query = py_join '' '' ?common"
    by (auto simp: extract_search_query_def Let_def split: if_splits)
  have "[] \<notin> set (clean_words h1)" by (simp add: clean_words_def)
  with common_words_subset have "[] \<notin> set ?common" by blast
  with c q show ?thesis by (simp add: py_join_nonempty)
qed

text \<open>
  C3, as the code has it. When the lookup resolves, latitude and longitude are stored in
  both scripts. smart\_geocoder sets \<open>verified = True\<close> for a point and leaves \<open>verified\<close>
  and \<open>mode\<close> as they were for an area. skyline\_geocoder, whose records are arrays with no
  \<open>verified\<close> entry, re-tags the record manual for an area and leaves the tag for a point.
\<close>

theorem geocode_result_applied:
  "(try_queries service queries = Some result \<and> verified rec \<noteq> Some True
      \<and> \<not> (latitude rec \<noteq> None \<and> longitude rec \<noteq> None) \<and> queries \<noteq> []
    \<longrightarrow> smart_geocode_record service queries rec
          = (if is_area result
             then rec\<lparr>latitude := Some (lat result), longitude := Some (lng result)\<rparr>
             else rec\<lparr>latitude := Some (lat result), longitude := Some (lng result),
                      verified := Some True\<rparr>))
   \<and> (4 \<le> length record \<and> record ! 3 = JStr ''automatic''
      \<and> record ! 0 = JStr h1 \<and> record ! 1 = JStr h2
      \<and> extract_search_query h1 h2 = Some query
      \<and> skyline_geocode_query (lookup_place service' query) = Inr (Some result')
    \<longrightarrow> skyline_geocode_record service' record
          = Inr ((if is_area result' then (take 5 record)[3 := JStr ''manual''] else take 5 record)
                 @ [JFloat (lat result'), JFloat (lng result')]))"
proof (intro conjI impI)
  assume "try_queries service queries = Some result \<and> verified rec \<noteq> Some True
      \<and> \<not> (latitude rec \<noteq> None \<and> longitude rec \<noteq> None) \<and> queries \<noteq> []"
  then show "smart_geocode_record service queries rec
          = (if is_area result
             then rec\<lparr>latitude := Some (lat result), longitude := Some (lng result)\<rparr>
             else rec\<lparr>latitude := Some (lat result), longitude := Some (lng result),
                      verified := Some True\<rparr>)"
    by (auto simp: smart_geocode_record_def Let_def)
next
  assume a: "4 \<le> length record \<and> record ! 3 = JStr ''automatic''
      \<and> record ! 0 = JStr h1 \<and> record ! 1 = JStr h2
      \<and> extract_search_query h1 h2 = Some query
      \<and> skyline_geocode_query (lookup_place service' query) = Inr (Some result')"
  then have "query \<noteq> []" using extract_search_query_nonempty by blast
  with a show "skyline_geocode_record service' record
          = Inr ((if is_area result' then (take 5 record)[3 := JStr ''manual''] else take 5 record)
                 @ [JFloat (lat result'), JFloat (lng result')])"
    by (auto simp: skyline_geocode_record_def field_or_empty_def Let_def)
qed

theorem geocode_result_applied_witness:
  "smart_geocode_record
      [(''Oslo Opera Norway'', Reply \<lparr>status = Some ''OK'', candidates =
          [Some \<lparr>location = Some [(''lat'', 59.9), (''lng'', 10.75)], viewport = None\<rparr>]\<rparr>)]
      [''Oslo Opera Norway'']
      \<lparr>title = Some ''Oslo Opera'', subtitle = None, url = Some ''u'', mode = Some ''automatic'',
        radius = Some 200, latitude = None, longitude = None, verified = Some False,
        source = None, subregion = None\<rparr>
    = \<lparr>title = Some ''Oslo Opera'', subtitle = None, url = Some ''u'', mode = Some ''automatic'',
        radius = Some 200, latitude = Some 59.9, longitude = Some 10.75, verified = Some True,
        source = None, subregion = None\<rparr>
   \<and> skyline_geocode_record
      [(''oslo opera'', Reply \<lparr>status = Some ''OK'', candidates =
          [Some \<lparr>location = Some [(''lat'', 59.9), (''lng'', 10.75)],
                 viewport = Some \<lparr>northeast = Some [(''lat'', 60), (''lng'', 11)],
                                   southwest = Some [(''lat'', 59.8), (''lng'', 10.5)]\<rparr>\<rparr>]\<rparr>)]
      [JStr ''Oslo Opera - Norway Live cam'', JStr ''View of Oslo Opera'', JStr ''u'',
       JStr ''automatic'', JInt 200]
    = Inr [JStr ''Oslo Opera - Norway Live cam'', JStr ''View of Oslo Opera'', JStr ''u'',
           JStr ''manual'', JInt 200, JFloat 59.9, JFloat 10.75]"
  (is "?smart \<and> ?skyline")
proof -
  let ?svc = "[(''Oslo Opera Norway'', Reply \<lparr>status = Some ''OK'', candidates =
          [Some \<lparr>location = Some [(''lat'', 59.9), (''lng'', 10.75)], viewport = None\<rparr>]\<rparr>)]"
  let ?svc' = "[(''oslo opera'', Reply \<lparr>status = Some ''OK'', candidates =
          [Some \<lparr>location = Some [(''lat'', 59.9), (''lng'', 10.75)],
                 viewport = Some \<lparr>northeast = Some [(''lat'', 60), (''lng'', 11)],
                                   southwest = Some [(''lat'', 59.8), (''lng'', 10.5)]\<rparr>\<rparr>]\<rparr>)]"
  have t: "try_queries ?svc [''Oslo Opera Norway'']
      = Some \<lparr>lat = 59.9, lng = 10.75, is_area = False\<rparr>"
    by (simp add: lookup_place_def smart_geocode_query_def geocode_data_def
        viewport_is_area_def)
  have va: "viewport_is_area (Some \<lparr>northeast = Some [(''lat'', 60), (''lng'', 11)],
                                   southwest = Some [(''lat'', 59.8), (''lng'', 10.5)]\<rparr>) = True"
    by (subst viewport_is_area_corners) (simp, simp, code_simp)
  have q: "extract_search_query ''Oslo Opera - Norway Live cam'' ''View of Oslo Opera''
      = Some ''oslo opera''"
    by code_simp
  have g: "skyline_geocode_query (lookup_place ?svc' ''oslo opera'')
      = Inr (Some \<lparr>lat = 59.9, lng = 10.75, is_area = True\<rparr>)"
    using va by (simp add: lookup_place_def skyline_geocode_query_def geocode_data_def)
  note inst = geocode_result_applied [of ?svc "[''Oslo Opera Norway'']"
      "\<lparr>lat = 59.9, lng = 10.75, is_area = False\<rparr>"
      "\<lparr>title = Some ''Oslo Opera'', subtitle = None, url = Some ''u'', mode = Some ''automatic'',
        radius = Some 200, latitude = None, longitude = None, verified = Some False,
        source = None, subregion = None\<rparr>"
      "[JStr ''Oslo Opera - Norway Live cam'', JStr ''View of Oslo Opera'', JStr ''u'',
       JStr ''automatic'', JInt 200]"
      "''Oslo Opera - Norway Live cam''" "''View of Oslo Opera''" "''oslo opera''"
      ?svc' "\<lparr>lat = 59.9, lng = 10.75, is_area = True\<rparr>"]
  from inst [THEN conjunct1] t have s1: ?smart by simp
  from inst [THEN conjunct2] q g have s2: ?skyline by simp
  from s1 s2 show ?thesis ..
qed

text \<open>
  An area result in smart\_geocoder: the coordinates are stored, the mode stays automatic
  and \<open>verified\<close> stays unset.
\<close>

theorem area_result_keeps_mode_counterexample:
  "try_queries
      [(''Oslo Norway'', Reply \<lparr>status = Some ''OK'', candidates =
          [Some \<lparr>location = Some [(''lat'', 59.9), (''lng'', 10.75)],
                 viewport = Some \<lparr>northeast = Some [(''lat'', 60), (''lng'', 11)],
                                   southwest = Some [(''lat'', 59.8), (''lng'', 10.5)]\<rparr>\<rparr>]\<rparr>)]
      [''Oslo Norway'']
     = Some \<lparr>lat = 59.9, lng = 10.75, is_area = True\<rparr>
   \<and> smart_geocode_record
      [(''Oslo Norway'', Reply \<lparr>status = Some ''OK'', candidates =
          [Some \<lparr>location = Some [(''lat'', 59.9), (''lng'', 10.75)],
                 viewport = Some \<lparr>northeast = Some [(''lat'', 60), (''lng'', 11)],
                                   southwest = Some [(''lat'', 59.8), (''lng'', 10.5)]\<rparr>\<rparr>]\<rparr>)]
      [''Oslo Norway'']
      \<lparr>title = Some ''Oslo'', subtitle = None, url = Some ''u'', mode = Some ''automatic'',
        radius = Some 200, latitude = None, longitude = None, verified = None,
        source = None, subregion = None\<rparr>
    = \<lparr>title = Some ''Oslo'', subtitle = None, url = Some ''u'', mode = Some ''automatic'',
        radius = Some 200, latitude = Some 59.9, longitude = Some 10.75, verified = None,
        source = None, subregion = None\<rparr>
   \<and> mode \<lparr>title = Some ''Oslo'', subtitle = None, url = Some ''u'', mode = Some ''automatic'',
        radius = Some 200, latitude = Some 59.9, longitude = Some 10.75, verified = None,
        source = None, subregion = None\<rparr> \<noteq> Some ''manual''
   \<and> verified \<lparr>title = Some ''Oslo'', subtitle = None, url = Some ''u'',
        mode = Some ''automatic'', radius = Some 200, latitude = Some 59.9,
        longitude = Some 10.75, verified = None, source = None, subregion = None\<rparr>
       \<noteq> Some False"
proof -
  have va: "viewport_is_area (Some \<lparr>northeast = Some [(''lat'', 60), (''lng'', 11)],
                                   southwest = Some [(''lat'', 59.8), (''lng'', 10.5)]\<rparr>) = True"
    by (subst viewport_is_area_corners) (simp, simp, code_simp)
  then show ?thesis
    by (simp add: smart_geocode_record_def lookup_place_def smart_geocode_query_def
        geocode_data_def)
qed

lemma retry_walk_length: "length (retry_walk g i records) = length records"
  by (induction "records" arbitrary: i) auto

lemma retry_walk_append:
  "retry_walk g i (xs @ ys)
     = retry_walk g i xs @ retry_walk g (i + length (filter is_retry_target xs)) ys"
  by (induction xs arbitrary: i) auto

lemma retry_walk_nth:
  "k < length records \<Longrightarrow>
   retry_walk g i records ! k
     = (if is_retry_target (records ! k)
        then apply_retry_result (g (i + length (filter is_retry_target (take k records))))
               (records ! k)
        else records ! k)"
proof (induction "records" arbitrary: i k)
  case Nil
  then show ?case by simp
next
  case (Cons r rs)
  show ?case
  proof (cases k)
    case 0
    then show ?thesis by simp
  next
    case (Suc k')
    with Cons.prems have "k' < length rs" by simp
    from Cons.IH [OF this] Suc show ?thesis by simp
  qed
qed

lemma retry_records_walk:
  assumes "\<And>m. m < i + length (filter is_retry_target records) \<Longrightarrow> i \<le> m
             \<Longrightarrow> results ! m = Some (g m)"
  shows "retry_records results i records
         = Inr (retry_walk g i records, i + length (filter is_retry_target records))"
  using assms
proof (induction "records" arbitrary: i)
  case Nil
  then show ?case by simp
next
  case (Cons r rs)
  show ?case
  proof (cases "is_retry_target r")
    case True
    have "results ! i = Some (g i)" using Cons.prems [of i] True by simp
    moreover have "retry_records results (Suc i) rs
         = Inr (retry_walk g (Suc i) rs, Suc i + length (filter is_retry_target rs))"
      by (rule Cons.IH) (use Cons.prems True in auto)
    ultimately show ?thesis using True by simp
  next
    case False
    have "retry_records results i rs
         = Inr (retry_walk g i rs, i + length (filter is_retry_target rs))"
      by (rule Cons.IH) (use Cons.prems False in auto)
    then show ?thesis using False by simp
  qed
qed

lemma retry_buckets_walk:
  assumes "\<And>m. m < i + length (filter is_retry_target (concat (map snd combined))) \<Longrightarrow> i \<le> m
             \<Longrightarrow> results ! m = Some (g m)"
  shows "\<exists>after. retry_buckets results i combined = Inr after
           \<and> map fst after = map fst combined
           \<and> map (\<lambda>b. length (snd b)) after = map (\<lambda>b. length (snd b)) combined
           \<and> concat (map snd after) = retry_walk g i (concat (map snd combined))"
  using assms
proof (induction combined arbitrary: i)
  case Nil
  then show ?case by simp
next
  case (Cons a combined)
  obtain country recs where a: "a = (country, recs)" by (cases a)
  let ?j = "i + length (filter is_retry_target recs)"
  have r: "retry_records results i recs = Inr (retry_walk g i recs, ?j)"
    by (rule retry_records_walk) (use Cons.prems a in auto)
  have "\<exists>after. retry_buckets results ?j combined = Inr after
           \<and> map fst after = map fst combined
           \<and> map (\<lambda>b. length (snd b)) after = map (\<lambda>b. length (snd b)) combined
           \<and> concat (map snd after) = retry_walk g ?j (concat (map snd combined))"
    by (rule Cons.IH) (use Cons.prems a in auto)
  then obtain after where
    b: "retry_buckets results ?j combined = Inr after"
    and k: "map fst after = map fst combined"
    and l: "map (\<lambda>b. length (snd b)) after = map (\<lambda>b. length (snd b)) combined"
    and w: "concat (map snd after) = retry_walk g ?j (concat (map snd combined))"
    by blast
  from a r b k l w show ?case
    by (simp add: retry_walk_append retry_walk_length)
qed

lemma filter_enumerate_snd:
  "map snd (filter (\<lambda>(idx, rec). P rec) (enumerate n xs)) = filter P xs"
  by (induction xs arbitrary: n) auto

lemma wct_targets_records:
  "map (\<lambda>(country, idx, rec). rec) (wct_targets combined)
     = filter is_retry_target (concat (map snd combined))"
proof (induction combined)
  case Nil
  then show ?case by (simp add: wct_targets_def)
next
  case (Cons a combined)
  obtain country recs where a: "a = (country, recs)" by (cases a)
  have "map (\<lambda>(country, idx, rec). rec)
          (map (\<lambda>(idx, rec). (country, idx, rec))
             (filter (\<lambda>(idx, rec). is_retry_target rec) (enumerate 0 recs)))
        = map snd (filter (\<lambda>(idx, rec). is_retry_target rec) (enumerate 0 recs))"
    by (simp add: case_prod_beta comp_def)
  also have "\<dots> = filter is_retry_target recs" by (rule filter_enumerate_snd)
  finally show ?case using Cons.IH a by (simp add: wct_targets_def)
qed

lemma retry_walk_no_targets:
  "filter is_retry_target records = [] \<Longrightarrow> retry_walk g i records = records"
  by (induction "records" arbitrary: i) (auto split: if_splits)

lemma retry_main_walk:
  assumes "completion_of (length (wct_targets combined)) order"
  shows "\<exists>after. retry_main html_unescape responses order combined = Inr after
           \<and> map fst after = map fst combined
           \<and> map (\<lambda>b. length (snd b)) after = map (\<lambda>b. length (snd b)) combined
           \<and> concat (map snd after)
               = retry_walk (\<lambda>i. retry_fetch_iframe_url html_unescape (response_of responses i)) 0
                   (concat (map snd combined))"
proof -
  let ?g = "\<lambda>i. retry_fetch_iframe_url html_unescape (response_of responses i)"
  let ?flat = "concat (map snd combined)"
  have len: "length (wct_targets combined) = length (filter is_retry_target ?flat)"
    using wct_targets_records [of combined] by (metis length_map)
  show ?thesis
  proof (cases "length (wct_targets combined) = 0")
    case True
    with len have "filter is_retry_target ?flat = []" by simp
    then have "retry_walk ?g 0 ?flat = ?flat" by (rule retry_walk_no_targets)
    with True show ?thesis by (simp add: retry_main_def)
  next
    case False
    let ?results = "collect_results order ?g (length (wct_targets combined))"
    have "?results ! m = Some (?g m)"
      if "m < 0 + length (filter is_retry_target ?flat)" for m
      using that len collect_results_nth [OF assms] by simp
    then have "\<exists>after. retry_buckets ?results 0 combined = Inr after
           \<and> map fst after = map fst combined
           \<and> map (\<lambda>b. length (snd b)) after = map (\<lambda>b. length (snd b)) combined
           \<and> concat (map snd after) = retry_walk ?g 0 ?flat"
      by (intro retry_buckets_walk) simp
    with False show ?thesis by (simp add: retry_main_def Let_def)
  qed
qed

text \<open>
  C10. The retry pass returns, keeps every bucket and its length, and fetches exactly for
  the records with source "WCT" and \<open>verified\<close> equal to \<open>False\<close>, in the order of the
  walk. A record that is no target is unchanged; a target whose fetch fails again (no
  status 200, or no iframe found, or an empty source) is unchanged in every field; a target
  whose fetch succeeds gets the iframe source, \<open>verified = True\<close> and radius 10.
\<close>

theorem retry_pass_frame:
  assumes "completion_of (length (wct_targets combined)) order"
  shows "\<exists>after. retry_main html_unescape responses order combined = Inr after
     \<and> map fst after = map fst combined
     \<and> map (\<lambda>b. length (snd b)) after = map (\<lambda>b. length (snd b)) combined
     \<and> map (\<lambda>(country, idx, rec). rec) (wct_targets combined)
         = filter is_retry_target (concat (map snd combined))
     \<and> (\<forall>k < length (concat (map snd combined)).
          let old = concat (map snd combined) ! k;
              new = concat (map snd after) ! k;
              fetched = retry_fetch_iframe_url html_unescape
                          (response_of responses
                             (length (filter is_retry_target
                                        (take k (concat (map snd combined))))))
          in (\<not> is_retry_target old \<longrightarrow> new = old)
           \<and> (is_retry_target old \<and> \<not> (snd (snd fetched) \<and> truthy_str (fst fetched))
                \<longrightarrow> new = old)
           \<and> (is_retry_target old \<and> snd (snd fetched) \<and> truthy_str (fst fetched)
                \<longrightarrow> new = old\<lparr>url := fst fetched, verified := Some True, radius := Some 10\<rparr>))
     \<and> (snd (snd (retry_fetch_iframe_url html_unescape outcome))
          \<longleftrightarrow> (\<exists>body. outcome = Responded 200 body \<and> find_iframe_src body \<noteq> None))"
proof -
  let ?g = "\<lambda>i. retry_fetch_iframe_url html_unescape (response_of responses i)"
  let ?flat = "concat (map snd combined)"
  from retry_main_walk [OF assms] obtain after where
    m: "retry_main html_unescape responses order combined = Inr after"
    and k: "map fst after = map fst combined"
    and l: "map (\<lambda>b. length (snd b)) after = map (\<lambda>b. length (snd b)) combined"
    and w: "concat (map snd after) = retry_walk ?g 0 ?flat"
    by blast
  have n: "\<forall>k < length ?flat.
          let old = ?flat ! k;
              new = concat (map snd after) ! k;
              fetched = ?g (length (filter is_retry_target (take k ?flat)))
          in (\<not> is_retry_target old \<longrightarrow> new = old)
           \<and> (is_retry_target old \<and> \<not> (snd (snd fetched) \<and> truthy_str (fst fetched))
                \<longrightarrow> new = old)
           \<and> (is_retry_target old \<and> snd (snd fetched) \<and> truthy_str (fst fetched)
                \<longrightarrow> new = old\<lparr>url := fst fetched, verified := Some True, radius := Some 10\<rparr>)"
    unfolding w
    by (simp add: retry_walk_nth apply_retry_result_def case_prod_beta VERIFIED_RADIUS_def Let_def)
  have f: "snd (snd (retry_fetch_iframe_url html_unescape outcome))
          \<longleftrightarrow> (\<exists>body. outcome = Responded 200 body \<and> find_iframe_src body \<noteq> None)"
    by (cases outcome) (auto simp: retry_fetch_iframe_url_def split: option.splits)
  from m k l n f wct_targets_records [of combined] show ?thesis by blast
qed

theorem retry_pass_frame_witness:
  \<open>completion_of (length (wct_targets
      [(''A'', [\<lparr>title = Some ''a'', subtitle = None, url = Some ''f0'', mode = Some ''automatic'',
                 radius = Some 200, latitude = None, longitude = None, verified = Some False,
                 source = Some ''WCT'', subregion = None\<rparr>,
               \<lparr>title = Some ''b'', subtitle = None, url = Some ''u1'', mode = Some ''automatic'',
                 radius = Some 200, latitude = None, longitude = None, verified = Some False,
                 source = Some ''EW'', subregion = None\<rparr>]),
       (''B'', [\<lparr>title = Some ''c'', subtitle = None, url = Some ''f2'', mode = Some ''automatic'',
                 radius = Some 200, latitude = None, longitude = None, verified = Some False,
                 source = Some ''WCT'', subregion = None\<rparr>])])) [1, 0]
   \<and> retry_main id [Responded 404 [], Responded 200 ''<iframe src="e/2">''] [1, 0]
      [(''A'', [\<lparr>title = Some ''a'', subtitle = None, url = Some ''f0'', mode = Some ''automatic'',
                 radius = Some 200, latitude = None, longitude = None, verified = Some False,
                 source = Some ''WCT'', subregion = None\<rparr>,
               \<lparr>title = Some ''b'', subtitle = None, url = Some ''u1'', mode = Some ''automatic'',
                 radius = Some 200, latitude = None, longitude = None, verified = Some False,
                 source = Some ''EW'', subregion = None\<rparr>]),
       (''B'', [\<lparr>title = Some ''c'', subtitle = None, url = Some ''f2'', mode = Some ''automatic'',
                 radius = Some 200, latitude = None, longitude = None, verified = Some False,
                 source = Some ''WCT'', subregion = None\<rparr>])]
     = Inr
      [(''A'', [\<lparr>title = Some ''a'', subtitle = None, url = Some ''f0'', mode = Some ''automatic'',
                 radius = Some 200, latitude = None, longitude = None, verified = Some False,
                 source = Some ''WCT'', subregion = None\<rparr>,
               \<lparr>title = Some ''b'', subtitle = None, url = Some ''u1'', mode = Some ''automatic'',
                 radius = Some 200, latitude = None, longitude = None, verified = Some False,
                 source = Some ''EW'', subregion = None\<rparr>]),
       (''B'', [\<lparr>title = Some ''c'', subtitle = None, url = Some ''e/2'', mode = Some ''automatic'',
                 radius = Some 10, latitude = None, longitude = None, verified = Some True,
                 source = Some ''WCT'', subregion = None\<rparr>])]\<close>
  (is "completion_of (length (wct_targets ?C)) ?O \<and> retry_main id ?R ?O ?C = Inr ?C'")
proof -
  have h: "completion_of (length (wct_targets ?C)) ?O" by code_simp
  from retry_pass_frame [OF h, of id ?R Timed_out] obtain after where
    m: "retry_main id ?R ?O ?C = Inr after"
    and k: "map fst after = map fst ?C"
    and l: "map (\<lambda>b. length (snd b)) after = map (\<lambda>b. length (snd b)) ?C"
    by blast
  have e: "retry_main id ?R ?O ?C = Inr ?C'" by code_simp
  with m h show ?thesis by simp
qed

end
